theory Spec2Isabelle
  imports Complex_Main "HOL-Library.Word" "HOL-Library.AList"
begin

unbundle bit_operations_syntax

section \<open>Window animation engine of the Windows shell\<close>

text \<open>
  The development embeds the animation part of \<^verbatim>\<open>window_api.cc\<close> (class
  \<^verbatim>\<open>WindowApi\<close>) and the tick scheduler \<^verbatim>\<open>WindowApiTimer\<close>.

  Conventions of the embedding.
  \<^item> A C++ \<^verbatim>\<open>double\<close> is a \<^typ>\<open>real\<close>: arithmetic is exact, there is no NaN and
    no infinity, and \<open>x / 0 = 0\<close>. The properties below depend on comparisons and on
    the values at the exactly representable points \<open>0\<close>, \<open>1\<close>, \<open>16\<close> and \<open>100\<close>;
    the one numeric evaluation, of two alpha bytes at the end, has margins far wider
    than any rounding error.
  \<^item> \<^verbatim>\<open>UINT_PTR\<close> is a 64-bit word, \<^verbatim>\<open>DWORD\<close> a 32-bit word and \<^verbatim>\<open>BYTE\<close> an 8-bit
    word. \<^verbatim>\<open>LONG\<close>, \<^verbatim>\<open>int\<close> and the 64-bit performance counter are integers; the
    source has undefined behaviour where they overflow.
  \<^item> A window handle is a natural number, \<open>0\<close> being \<^verbatim>\<open>nullptr\<close>.
  \<^item> A member \<^verbatim>\<open>name_\<close> of a class is written \<open>name'\<close>.
  \<^item> A \<^verbatim>\<open>std::function<void()>\<close> is an optional token; calling it is recorded in
    the log of calls, its body is opaque.
  \<^item> The answers of the window manager during one operation are an input of that
    operation (\<open>win32_env\<close>); the calls the operation makes are appended to a log.
\<close>

type_synonym double = real
type_synonym HWND = nat
type_synonym UINT_PTR = "64 word"
type_synonym DWORD = "32 word"
type_synonym LONG = int
type_synonym BYTE = "8 word"
type_synonym callback = nat

subsection \<open>Animation types (window\_api.h)\<close>

datatype AnimationEasingType =
  kLinear | kEaseIn | kEaseOut | kEaseInOut | kSpringBounce | kOvershoot

datatype AnimationPropertyType = kPosition | kSize | kBounds | kOpacity

text \<open>
  \<^verbatim>\<open>struct AnimationRequest\<close>. The fields carry the prefix \<open>req_\<close> because the
  animation instance below has fields of the same names.
\<close>

record AnimationRequest =
  req_property :: AnimationPropertyType
  req_easing :: AnimationEasingType
  req_target_x :: double
  req_target_y :: double
  req_target_width :: double
  req_target_height :: double
  req_target_opacity :: double
  req_duration :: DWORD
  use_custom_spring :: bool
  req_spring_damping :: double
  req_spring_stiffness :: double
  req_on_complete :: "callback option"

text \<open>\<^verbatim>\<open>struct WindowAnimation\<close>, one animation in flight.\<close>

record WindowAnimation =
  timer_id :: UINT_PTR
  hwnd :: HWND
  property :: AnimationPropertyType
  easing :: AnimationEasingType
  start_x :: double
  start_y :: double
  start_width :: double
  start_height :: double
  start_opacity :: double
  target_x :: double
  target_y :: double
  target_width :: double
  target_height :: double
  target_opacity :: double
  start_time_qpc :: int
  duration :: DWORD
  progress :: double
  scale_factor :: double
  shadow_left :: LONG
  shadow_right :: LONG
  shadow_top :: LONG
  shadow_bottom :: LONG
  spring_damping :: double
  spring_stiffness :: double
  spring_velocity :: double
  on_complete :: "callback option"
  is_active :: bool

text \<open>
  The default member initialisers of \<^verbatim>\<open>WindowAnimation\<close>. The start time has none;
  the only constructor call, in \<^verbatim>\<open>StartAnimation\<close>, overwrites it before any read.
\<close>

definition WindowAnimation_default :: WindowAnimation where
  "WindowAnimation_default =
     \<lparr>timer_id = 0, hwnd = 0, property = kPosition, easing = kSpringBounce,
      start_x = 0, start_y = 0, start_width = 0, start_height = 0, start_opacity = 1,
      target_x = 0, target_y = 0, target_width = 0, target_height = 0,
      target_opacity = 1, start_time_qpc = 0, duration = 300, progress = 0,
      scale_factor = 1, shadow_left = 0, shadow_right = 0, shadow_top = 0,
      shadow_bottom = 0, spring_damping = 7 / 10, spring_stiffness = 100,
      spring_velocity = 0, on_complete = None, is_active = False\<rparr>"

text \<open>
  The animation members of \<^verbatim>\<open>class WindowApi\<close>. The drag, taskbar and resizable
  members take no part in the animation code and are left out. \<^verbatim>\<open>window_\<close> is a
  pointer to the host window, \<open>None\<close> being \<^verbatim>\<open>nullptr\<close>; what the host window
  answers belongs to the environment below. The unordered map is an association
  list; its order stands for the iteration order of the map.
\<close>

type_synonym HostWindow = nat

record WindowApi =
  window' :: "HostWindow option"
  active_animations' :: "(UINT_PTR \<times> WindowAnimation) list"
  next_timer_id' :: UINT_PTR
  spring_damping' :: double
  spring_stiffness' :: double

definition WindowApi_new :: "HostWindow option \<Rightarrow> WindowApi" where
  "WindowApi_new window =
     \<lparr>window' = window, active_animations' = [], next_timer_id' = 1000,
      spring_damping' = 7 / 10, spring_stiffness' = 100\<rparr>"

subsection \<open>The window manager\<close>

record RECT =
  r_left :: LONG
  r_top :: LONG
  r_right :: LONG
  r_bottom :: LONG

datatype swp_flag =
  SWP_NOSIZE | SWP_NOMOVE | SWP_NOZORDER | SWP_NOACTIVATE | SWP_DEFERERASE

text \<open>
  The log of an operation, in the order of the source: the calls that change the
  window or its timers, the completion callbacks, and the query of the layered
  attributes. The other queries leave no entry.
\<close>

datatype win32_call =
    KillTimer HWND UINT_PTR
  | SetTimer HWND UINT_PTR nat
  | SetWindowPos HWND int int int int "swp_flag list"
  | SetWindowLong HWND "32 word"
  | GetLayeredWindowAttributes HWND
  | SetLayeredWindowAttributes HWND BYTE
  | DwmFlush
  | Invoke callback

text \<open>
  What the host window and the window manager answer while one operation runs:
  \<open>GetWindowHandle\<close> is the handle the host window returns, \<open>None\<close> is a failed
  call. \<open>stack_frame_rect\<close> is the indeterminate content of the uninitialised
  local \<^verbatim>\<open>frame_rect\<close> of \<^verbatim>\<open>StartAnimation\<close>, which the source reads also after a
  failed query. The local \<^verbatim>\<open>window_rect\<close> is read after a successful query only.
\<close>

record win32_env =
  GetWindowHandle :: HWND
  dpi :: nat
  extended_frame_bounds :: "RECT option"
  window_rect :: "RECT option"
  stack_frame_rect :: RECT
  ex_style :: "32 word"
  layered_attributes :: "(BYTE \<times> 32 word) option"
  qpc_counter :: int
  qpc_frequency :: int

text \<open>
  Modelled from the spec: the layered flag of the extended style, the alpha flag of
  the layered attributes and the 96-DPI baseline. \<^verbatim>\<open>winuser.h\<close> is not part of the
  repository; the values are those of the Windows SDK.
\<close>

definition WS_EX_LAYERED :: "32 word" where
  "WS_EX_LAYERED = 0x80000"

definition LWA_ALPHA :: "32 word" where
  "LWA_ALPHA = 2"

definition USER_DEFAULT_SCREEN_DPI :: nat where
  "USER_DEFAULT_SCREEN_DPI = 96"

definition kAnimationTimerInterval :: nat where
  "kAnimationTimerInterval = 16"

text \<open>\<^verbatim>\<open>static_cast<int>\<close> of a double truncates towards zero.\<close>

definition cast_int :: "double \<Rightarrow> int" where
  "cast_int x = (if 0 \<le> x then \<lfloor>x\<rfloor> else \<lceil>x\<rceil>)"

definition cast_BYTE :: "double \<Rightarrow> BYTE" where
  "cast_BYTE x = word_of_int (cast_int x)"

subsection \<open>Easing\<close>

definition CalculateSpringBounce :: "double \<Rightarrow> double \<Rightarrow> double \<Rightarrow> double" where
  "CalculateSpringBounce t damping stiffness =
     (if t \<ge> 1 then 1
      else if t \<le> 0 then 0
      else
        let omega = sqrt stiffness;
            zeta = damping;
            result =
              (if zeta < 1 then
                 let omega_d = omega * sqrt (1 - zeta * zeta);
                     decay = exp (- zeta * omega * t)
                 in 1 - decay * (cos (omega_d * t) +
                                 (zeta * omega / omega_d) * sin (omega_d * t))
               else if zeta = 1 then
                 let decay = exp (- omega * t)
                 in 1 - decay * (1 + omega * t)
               else
                 let s1 = - omega * (zeta + sqrt (zeta * zeta - 1));
                     s2 = - omega * (zeta - sqrt (zeta * zeta - 1))
                 in 1 - (s2 * exp (s1 * t) - s1 * exp (s2 * t)) / (s2 - s1))
        in max 0 (min 1 result))"

text \<open>
  \<^verbatim>\<open>CalculateEasing\<close> is a member function: the spring case reads the members
  \<^verbatim>\<open>spring_damping_\<close> and \<^verbatim>\<open>spring_stiffness_\<close> of the \<^verbatim>\<open>WindowApi\<close>. The
  \<^verbatim>\<open>default\<close> branch of the switch is unreachable for the six enumerators.
\<close>

definition CalculateEasing :: "WindowApi \<Rightarrow> double \<Rightarrow> AnimationEasingType \<Rightarrow> double" where
  "CalculateEasing api t0 ease =
     (let t = max 0 (min 1 t0) in
      case ease of
        kLinear \<Rightarrow> t
      | kEaseIn \<Rightarrow> t * t
      | kEaseOut \<Rightarrow> 1 - (1 - t) * (1 - t)
      | kEaseInOut \<Rightarrow>
          (if t < 1 / 2 then 2 * t * t else 1 - (- 2 * t + 2) ^ 2 / 2)
      | kSpringBounce \<Rightarrow>
          CalculateSpringBounce t (spring_damping' api) (spring_stiffness' api)
      | kOvershoot \<Rightarrow>
          (let c1 = 170158 / 100000; c3 = c1 + 1
           in 1 + c3 * (t - 1) ^ 3 + c1 * (t - 1) ^ 2))"

definition SetSpringParameters :: "double \<Rightarrow> double \<Rightarrow> WindowApi \<Rightarrow> WindowApi" where
  "SetSpringParameters damping stiffness api =
     api\<lparr>spring_damping' := max (1 / 10) (min 2 damping),
         spring_stiffness' := max 10 (min 500 stiffness)\<rparr>"

subsection \<open>Advancing an animation\<close>

definition GetElapsedMs :: "win32_env \<Rightarrow> int \<Rightarrow> double" where
  "GetElapsedMs env start =
     real_of_int (qpc_counter env - start) * 1000 / real_of_int (qpc_frequency env)"

definition ApplyAnimationFrame ::
  "WindowAnimation \<Rightarrow> double \<Rightarrow> win32_call list \<Rightarrow> win32_call list" where
  "ApplyAnimationFrame anim eased_progress calls =
     (if hwnd anim = 0 then calls
      else
        (case property anim of
           kPosition \<Rightarrow>
             (let current_x = start_x anim + (target_x anim - start_x anim) * eased_progress;
                  current_y = start_y anim + (target_y anim - start_y anim) * eased_progress;
                  physical_x = cast_int (current_x * scale_factor anim) - shadow_left anim;
                  physical_y = cast_int (current_y * scale_factor anim) - shadow_top anim
              in calls @ [SetWindowPos (hwnd anim) physical_x physical_y 0 0
                            [SWP_NOSIZE, SWP_NOZORDER, SWP_NOACTIVATE, SWP_DEFERERASE]])
         | kSize \<Rightarrow>
             (let current_width =
                    start_width anim + (target_width anim - start_width anim) * eased_progress;
                  current_height =
                    start_height anim + (target_height anim - start_height anim) * eased_progress;
                  physical_width = cast_int (current_width * scale_factor anim)
                                   + (shadow_left anim + shadow_right anim);
                  physical_height = cast_int (current_height * scale_factor anim)
                                    + (shadow_top anim + shadow_bottom anim)
              in calls @ [SetWindowPos (hwnd anim) 0 0 physical_width physical_height
                            [SWP_NOMOVE, SWP_NOZORDER, SWP_NOACTIVATE, SWP_DEFERERASE]])
         | kBounds \<Rightarrow>
             (let current_x = start_x anim + (target_x anim - start_x anim) * eased_progress;
                  current_y = start_y anim + (target_y anim - start_y anim) * eased_progress;
                  current_width =
                    start_width anim + (target_width anim - start_width anim) * eased_progress;
                  current_height =
                    start_height anim + (target_height anim - start_height anim) * eased_progress;
                  physical_x = cast_int (current_x * scale_factor anim) - shadow_left anim;
                  physical_y = cast_int (current_y * scale_factor anim) - shadow_top anim;
                  physical_width = cast_int (current_width * scale_factor anim)
                                   + (shadow_left anim + shadow_right anim);
                  physical_height = cast_int (current_height * scale_factor anim)
                                    + (shadow_top anim + shadow_bottom anim)
              in calls @ [SetWindowPos (hwnd anim) physical_x physical_y
                            physical_width physical_height
                            [SWP_NOZORDER, SWP_NOACTIVATE, SWP_DEFERERASE]])
         | kOpacity \<Rightarrow>
             (let current_opacity =
                    start_opacity anim + (target_opacity anim - start_opacity anim) * eased_progress
              in calls @ [SetLayeredWindowAttributes (hwnd anim)
                            (cast_BYTE (max 0 (min 1 current_opacity) * 255))]))
        @ [DwmFlush])"

definition UpdateAnimation ::
  "WindowApi \<Rightarrow> win32_env \<Rightarrow> WindowAnimation \<Rightarrow> win32_call list
     \<Rightarrow> WindowAnimation \<times> win32_call list" where
  "UpdateAnimation api env anim calls =
     (if \<not> is_active anim \<or> hwnd anim = 0 then (anim, calls)
      else
        let elapsed = GetElapsedMs env (start_time_qpc anim) in
        if elapsed \<ge> real (unat (duration anim)) then
          (let anim1 = anim\<lparr>progress := 1\<rparr>;
               calls1 = ApplyAnimationFrame anim1 1 calls;
               anim2 = anim1\<lparr>is_active := False\<rparr>;
               calls2 = calls1 @ [KillTimer (hwnd anim2) (timer_id anim2)];
               calls3 = (case on_complete anim2 of
                           Some cb \<Rightarrow> calls2 @ [Invoke cb]
                         | None \<Rightarrow> calls2)
           in (anim2, calls3))
        else
          (let anim1 = anim\<lparr>progress := elapsed / real (unat (duration anim))\<rparr>;
               eased_progress = CalculateEasing api (progress anim1) (easing anim1)
           in (anim1, ApplyAnimationFrame anim1 eased_progress calls)))"

text \<open>
  The \<^verbatim>\<open>WM_TIMER\<close> handler. \<^verbatim>\<open>anim\<close> is a reference into the map, so the record
  that stays in the map is the advanced one.
\<close>

definition OnTimer ::
  "UINT_PTR \<Rightarrow> win32_env \<Rightarrow> WindowApi \<times> win32_call list
     \<Rightarrow> bool \<times> WindowApi \<times> win32_call list" where
  "OnTimer wParam env st =
     (let api = fst st; calls = snd st in
      case map_of (active_animations' api) wParam of
        None \<Rightarrow> (False, api, calls)
      | Some anim \<Rightarrow>
          if \<not> is_active anim then
            (True,
             api\<lparr>active_animations' := AList.delete wParam (active_animations' api)\<rparr>,
             calls)
          else
            let upd = UpdateAnimation api env anim calls;
                anim1 = fst upd; calls1 = snd upd
            in if \<not> is_active anim1 then
                 (True,
                  api\<lparr>active_animations' := AList.delete wParam (active_animations' api)\<rparr>,
                  calls1)
               else
                 (True,
                  api\<lparr>active_animations' :=
                        AList.update wParam anim1 (active_animations' api)\<rparr>,
                  calls1))"

subsection \<open>Stopping animations\<close>

definition StopAnimation ::
  "UINT_PTR \<Rightarrow> WindowApi \<times> win32_call list \<Rightarrow> WindowApi \<times> win32_call list" where
  "StopAnimation tid st =
     (let api = fst st; calls = snd st in
      case map_of (active_animations' api) tid of
        None \<Rightarrow> st
      | Some anim \<Rightarrow>
          (api\<lparr>active_animations' := AList.delete tid (active_animations' api)\<rparr>,
           if hwnd anim \<noteq> 0 then calls @ [KillTimer (hwnd anim) tid] else calls))"

text \<open>The \<^verbatim>\<open>switch\<close> of \<^verbatim>\<open>StopConflictingAnimations\<close>.\<close>

definition conflicts :: "AnimationPropertyType \<Rightarrow> AnimationPropertyType \<Rightarrow> bool" where
  "conflicts new_property p =
     (case new_property of
        kPosition \<Rightarrow> p = kPosition \<or> p = kBounds
      | kSize \<Rightarrow> p = kSize \<or> p = kBounds
      | kBounds \<Rightarrow> p = kPosition \<or> p = kSize \<or> p = kBounds
      | kOpacity \<Rightarrow> p = kOpacity)"

definition to_stop :: "AnimationPropertyType \<Rightarrow> WindowApi \<Rightarrow> UINT_PTR list" where
  "to_stop new_property api =
     map fst (filter (\<lambda>pair. is_active (snd pair)
                              \<and> conflicts new_property (property (snd pair)))
                     (active_animations' api))"

definition StopConflictingAnimations ::
  "AnimationPropertyType \<Rightarrow> WindowApi \<times> win32_call list
     \<Rightarrow> WindowApi \<times> win32_call list" where
  "StopConflictingAnimations new_property st =
     fold StopAnimation (to_stop new_property (fst st)) st"

definition StopAllAnimations ::
  "win32_env \<Rightarrow> WindowApi \<times> win32_call list \<Rightarrow> WindowApi \<times> win32_call list" where
  "StopAllAnimations env st =
     (let api = fst st; calls = snd st in
      case window' api of
        None \<Rightarrow> st
      | Some window \<Rightarrow>
          if GetWindowHandle env = 0 then st
          else
            (api\<lparr>active_animations' := []\<rparr>,
             calls @ map (\<lambda>pair. KillTimer (GetWindowHandle env) (fst pair))
                         (active_animations' api)))"

definition HasActiveAnimation :: "WindowApi \<Rightarrow> bool" where
  "HasActiveAnimation api = list_ex (\<lambda>pair. is_active (snd pair)) (active_animations' api)"

subsection \<open>Starting an animation\<close>

text \<open>
  The middle part of \<^verbatim>\<open>StartAnimation\<close>, from the cached scale factor and shadow
  offsets to the end of the \<^verbatim>\<open>switch\<close> that captures the start values: it builds the
  new instance from the request, the environment and the members, and makes the
  calls of the opacity case. \<open>h\<close> is the window handle that passed the guard.
\<close>

definition create_instance ::
  "AnimationRequest \<Rightarrow> win32_env \<Rightarrow> WindowApi \<Rightarrow> win32_call list
     \<Rightarrow> WindowAnimation \<times> win32_call list" where
  "create_instance request env api calls =
     (let h = GetWindowHandle env;
          sf = real (dpi env) / real USER_DEFAULT_SCREEN_DPI;
          frame_rect = (case extended_frame_bounds env of
                          Some f \<Rightarrow> f
                        | None \<Rightarrow> stack_frame_rect env);
          measured = (case extended_frame_bounds env of
                        Some f \<Rightarrow> window_rect env
                      | None \<Rightarrow> None);
          anim0 = WindowAnimation_default
            \<lparr>timer_id := next_timer_id' api,
             hwnd := h,
             property := req_property request,
             easing := req_easing request,
             duration := req_duration request,
             spring_damping := spring_damping' api,
             spring_stiffness := spring_stiffness' api,
             on_complete := req_on_complete request,
             is_active := True,
             scale_factor := sf,
             shadow_left := (case measured of
                 Some w \<Rightarrow> r_left frame_rect - r_left w | None \<Rightarrow> 0),
             shadow_right := (case measured of
                 Some w \<Rightarrow> r_right w - r_right frame_rect | None \<Rightarrow> 0),
             shadow_top := (case measured of
                 Some w \<Rightarrow> r_top frame_rect - r_top w | None \<Rightarrow> 0),
             shadow_bottom := (case measured of
                 Some w \<Rightarrow> r_bottom w - r_bottom frame_rect | None \<Rightarrow> 0),
             start_time_qpc := qpc_counter env\<rparr>;
          started =
            (case req_property request of
               kPosition \<Rightarrow>
                 ((if r_left frame_rect \<noteq> 0 \<or> r_top frame_rect \<noteq> 0
                      \<or> r_right frame_rect \<noteq> 0 \<or> r_bottom frame_rect \<noteq> 0
                   then anim0\<lparr>start_x := real_of_int (r_left frame_rect) / sf,
                              start_y := real_of_int (r_top frame_rect) / sf\<rparr>
                   else (case window_rect env of
                           Some w \<Rightarrow>
                             anim0\<lparr>start_x := real_of_int (r_left w) / sf,
                                   start_y := real_of_int (r_top w) / sf\<rparr>
                         | None \<Rightarrow> anim0))
                    \<lparr>target_x := req_target_x request,
                     target_y := req_target_y request\<rparr>,
                  calls)
             | kSize \<Rightarrow>
                 ((if r_right frame_rect - r_left frame_rect > 0
                   then anim0\<lparr>start_width :=
                                real_of_int (r_right frame_rect - r_left frame_rect) / sf,
                              start_height :=
                                real_of_int (r_bottom frame_rect - r_top frame_rect) / sf\<rparr>
                   else (case window_rect env of
                           Some w \<Rightarrow>
                             anim0\<lparr>start_width :=
                                     real_of_int (r_right w - r_left w) / sf,
                                   start_height :=
                                     real_of_int (r_bottom w - r_top w) / sf\<rparr>
                         | None \<Rightarrow> anim0))
                    \<lparr>target_width := req_target_width request,
                     target_height := req_target_height request\<rparr>,
                  calls)
             | kBounds \<Rightarrow>
                 ((if r_right frame_rect - r_left frame_rect > 0
                   then anim0\<lparr>start_x := real_of_int (r_left frame_rect) / sf,
                              start_y := real_of_int (r_top frame_rect) / sf,
                              start_width :=
                                real_of_int (r_right frame_rect - r_left frame_rect) / sf,
                              start_height :=
                                real_of_int (r_bottom frame_rect - r_top frame_rect) / sf\<rparr>
                   else (case window_rect env of
                           Some w \<Rightarrow>
                             anim0\<lparr>start_x := real_of_int (r_left w) / sf,
                                   start_y := real_of_int (r_top w) / sf,
                                   start_width :=
                                     real_of_int (r_right w - r_left w) / sf,
                                   start_height :=
                                     real_of_int (r_bottom w - r_top w) / sf\<rparr>
                         | None \<Rightarrow> anim0))
                    \<lparr>target_x := req_target_x request,
                     target_y := req_target_y request,
                     target_width := req_target_width request,
                     target_height := req_target_height request\<rparr>,
                  calls)
             | kOpacity \<Rightarrow>
                 (let anim1 = anim0\<lparr>start_opacity := 1\<rparr>;
                      style = ex_style env;
                      calls2 = (if style AND WS_EX_LAYERED = 0
                                then calls @ [SetWindowLong h (style OR WS_EX_LAYERED)]
                                else calls);
                      calls3 = (if style AND WS_EX_LAYERED \<noteq> 0
                                then calls2 @ [GetLayeredWindowAttributes h]
                                else calls2);
                      anim2 = (if style AND WS_EX_LAYERED \<noteq> 0
                               then (case layered_attributes env of
                                       Some (alpha, flags) \<Rightarrow>
                                         if flags AND LWA_ALPHA \<noteq> 0
                                         then anim1\<lparr>start_opacity :=
                                                       real (unat alpha) / 255\<rparr>
                                         else anim1
                                     | None \<Rightarrow> anim1)
                               else anim1)
                  in (anim2\<lparr>target_opacity := req_target_opacity request\<rparr>, calls3)))
      in started)"

text \<open>
  \<^verbatim>\<open>StartAnimation\<close>, in the order of the source: the two guards, the eviction of
  conflicting animations, the optional override of the spring members, the new
  instance, and the store with its timer.
\<close>

definition StartAnimation ::
  "AnimationRequest \<Rightarrow> win32_env \<Rightarrow> WindowApi \<times> win32_call list
     \<Rightarrow> UINT_PTR \<times> WindowApi \<times> win32_call list" where
  "StartAnimation request env st =
     (case window' (fst st) of
        None \<Rightarrow> (0, st)
      | Some window \<Rightarrow>
          let h = GetWindowHandle env in
          if h = 0 then (0, st)
          else
            let st1 = StopConflictingAnimations (req_property request) st;
                api1 = fst st1; calls1 = snd st1;
                api2 = (if use_custom_spring request
                        then api1\<lparr>spring_damping' := req_spring_damping request,
                                  spring_stiffness' := req_spring_stiffness request\<rparr>
                        else api1);
                started = create_instance request env api2 calls1;
                anim = fst started; calls4 = snd started;
                api3 = api2\<lparr>next_timer_id' := next_timer_id' api2 + 1\<rparr>
            in (timer_id anim,
                api3\<lparr>active_animations' :=
                       AList.update (timer_id anim) anim (active_animations' api3)\<rparr>,
                calls4 @ [SetTimer h (timer_id anim) kAnimationTimerInterval]))"

subsection \<open>Runs of the public operations\<close>

text \<open>
  A run is a list of calls of the public animation operations, each with the answers
  the environment gives while it executes.
\<close>

datatype api_call =
    Start AnimationRequest
  | Stop UINT_PTR
  | StopAll
  | Timer UINT_PTR
  | SetSpring double double

definition perform ::
  "api_call \<Rightarrow> win32_env \<Rightarrow> WindowApi \<times> win32_call list
     \<Rightarrow> WindowApi \<times> win32_call list" where
  "perform c env st =
     (case c of
        Start request \<Rightarrow> snd (StartAnimation request env st)
      | Stop tid \<Rightarrow> StopAnimation tid st
      | StopAll \<Rightarrow> StopAllAnimations env st
      | Timer wParam \<Rightarrow> snd (OnTimer wParam env st)
      | SetSpring damping stiffness \<Rightarrow>
          (SetSpringParameters damping stiffness (fst st), snd st))"

fun run ::
  "(api_call \<times> win32_env) list \<Rightarrow> WindowApi \<times> win32_call list
     \<Rightarrow> WindowApi \<times> win32_call list" where
  "run [] st = st"
| "run (c # cs) st = run cs (perform (fst c) (snd c) st)"

text \<open>
  Two distinct entries of the map never hold active animations of conflicting
  properties.
\<close>

definition no_conflict :: "(UINT_PTR \<times> WindowAnimation) list \<Rightarrow> bool" where
  "no_conflict anims =
     (\<forall>p \<in> set anims. \<forall>q \<in> set anims.
        is_active (snd p) \<and> is_active (snd q)
        \<and> conflicts (property (snd p)) (property (snd q)) \<longrightarrow> fst p = fst q)"

text \<open>
  The conflict classes in the words of the specification: the window attribute that
  the animations of a class write. Position and Bounds write the origin, Size and
  Bounds the extent, Opacity the alpha.
\<close>

datatype spec_conflict_class = Origin | Extent | Alpha

fun spec_classes :: "AnimationPropertyType \<Rightarrow> spec_conflict_class list" where
  "spec_classes kPosition = [Origin]"
| "spec_classes kSize = [Extent]"
| "spec_classes kBounds = [Origin, Extent]"
| "spec_classes kOpacity = [Alpha]"

definition active_in_class ::
  "spec_conflict_class \<Rightarrow> (UINT_PTR \<times> WindowAnimation) list
     \<Rightarrow> (UINT_PTR \<times> WindowAnimation) list" where
  "active_in_class c anims =
     filter (\<lambda>pair. is_active (snd pair) \<and> c \<in> set (spec_classes (property (snd pair))))
            anims"

text \<open>
  The well-formedness of the map between two operations: keys are unique, every
  record is stored under its own identifier, has a window and is active.
\<close>

definition registry_ok :: "(UINT_PTR \<times> WindowAnimation) list \<Rightarrow> bool" where
  "registry_ok anims =
     (distinct (map fst anims)
      \<and> list_all (\<lambda>pair. timer_id (snd pair) = fst pair \<and> hwnd (snd pair) \<noteq> 0
                          \<and> is_active (snd pair)) anims)"

fun is_Invoke :: "win32_call \<Rightarrow> bool" where
  "is_Invoke (Invoke cb) = True"
| "is_Invoke c = False"

subsection \<open>The tick scheduler (window\_api\_timer.cc)\<close>

text \<open>
  The repository holds two versions of \<^verbatim>\<open>WindowApiTimer\<close>. The first keeps a
  collection \<^verbatim>\<open>windows_\<close> of host windows, used through \<^verbatim>\<open>insert\<close>, \<^verbatim>\<open>erase\<close> and
  \<^verbatim>\<open>find\<close> like a set, and posts the delivery to the task runner of the engine;
  the second keeps a set \<^verbatim>\<open>windowApis_\<close> with a cached copy that is rebuilt when
  the dirty flag is set. The record has the members of both that the ticks use;
  the timer queue and its set-up in \<^verbatim>\<open>Initialize\<close> are left out. A \<^verbatim>\<open>std::set\<close> of
  pointers is a list without duplicates in ascending order; the pointer \<open>0\<close> is
  \<^verbatim>\<open>nullptr\<close>. The mutex and the atomics are not modelled: the operations run one
  after the other.
\<close>

record WindowApiTimer =
  windows' :: "nat list"
  windowApis' :: "nat list"
  windowApis_cache' :: "nat list"
  windowApis_dirty' :: bool
  qpc_frequency' :: int
  last_tick_time_ms' :: double

definition set_insert :: "nat \<Rightarrow> nat list \<Rightarrow> nat list" where
  "set_insert x xs = (if x \<in> set xs then xs else insort x xs)"

definition set_erase :: "nat \<Rightarrow> nat list \<Rightarrow> nat list" where
  "set_erase x xs = removeAll x xs"

definition AddWindow :: "nat \<Rightarrow> WindowApiTimer \<Rightarrow> WindowApiTimer" where
  "AddWindow window t =
     (if window = 0 then t else t\<lparr>windows' := set_insert window (windows' t)\<rparr>)"

definition RemoveWindow :: "nat \<Rightarrow> WindowApiTimer \<Rightarrow> WindowApiTimer" where
  "RemoveWindow window t =
     (if window = 0 then t else t\<lparr>windows' := set_erase window (windows' t)\<rparr>)"

definition AddWindowApi :: "nat \<Rightarrow> WindowApiTimer \<Rightarrow> WindowApiTimer" where
  "AddWindowApi windowApi t =
     (if windowApi = 0 then t
      else t\<lparr>windowApis' := set_insert windowApi (windowApis' t),
             windowApis_dirty' := True\<rparr>)"

definition RemoveWindowApi :: "nat \<Rightarrow> WindowApiTimer \<Rightarrow> WindowApiTimer" where
  "RemoveWindowApi windowApi t =
     (if windowApi = 0 then t
      else t\<lparr>windowApis' := set_erase windowApi (windowApis' t),
             windowApis_dirty' := True\<rparr>)"

definition ClearWindows :: "WindowApiTimer \<Rightarrow> WindowApiTimer" where
  "ClearWindows t = t\<lparr>windowApis' := [], windowApis_dirty' := True\<rparr>"

text \<open>
  The second version of \<^verbatim>\<open>OnTick\<close>. The argument is the reading of the performance
  counter; the result lists the calls \<^verbatim>\<open>window->OnAnimationTickOnThread(delta_ms)\<close>
  as pairs of the consumer and the delta.
\<close>

definition OnTick ::
  "int \<Rightarrow> WindowApiTimer \<Rightarrow> (nat \<times> double) list \<times> WindowApiTimer" where
  "OnTick current_time t =
     (let current_time_ms =
            real_of_int current_time * 1000 / real_of_int (qpc_frequency' t);
          delta = current_time_ms - last_tick_time_ms' t;
          t1 = t\<lparr>last_tick_time_ms' := current_time_ms\<rparr>;
          delta_ms = (if delta > 100 then 16 else delta);
          t2 = (if windowApis_dirty' t1
                then t1\<lparr>windowApis_cache' := windowApis' t1, windowApis_dirty' := False\<rparr>
                else t1)
      in (map (\<lambda>window. (window, delta_ms))
              (filter (\<lambda>window. window \<noteq> 0) (windowApis_cache' t2)),
          t2))"

text \<open>
  The first version of \<^verbatim>\<open>OnTick\<close> returns the delta captured by the posted task.
  \<open>posted_task\<close> is the body of that task: it runs later on the main thread, over the
  set \<^verbatim>\<open>windows_\<close> of that moment, and calls \<^verbatim>\<open>api->OnAnimationTick(delta_ms)\<close> for
  every window whose \<^verbatim>\<open>GetApi()\<close> is not null.
\<close>

definition OnTick_post :: "int \<Rightarrow> WindowApiTimer \<Rightarrow> double \<times> WindowApiTimer" where
  "OnTick_post current_time t =
     (let current_time_ms =
            real_of_int current_time * 1000 / real_of_int (qpc_frequency' t);
          delta = current_time_ms - last_tick_time_ms' t;
          t1 = t\<lparr>last_tick_time_ms' := current_time_ms\<rparr>;
          delta_ms = (if delta > 100 then 16 else delta)
      in (delta_ms, t1))"

definition posted_task ::
  "(nat \<Rightarrow> nat) \<Rightarrow> double \<Rightarrow> WindowApiTimer \<Rightarrow> (nat \<times> double) list" where
  "posted_task GetApi delta_ms t =
     map (\<lambda>window. (GetApi window, delta_ms))
         (filter (\<lambda>window. window \<noteq> 0 \<and> GetApi window \<noteq> 0) (windows' t))"

text \<open>The membership operations of the second version, for runs between two ticks.\<close>

datatype member_call = Add nat | Remove nat | Clear

fun member_op :: "member_call \<Rightarrow> WindowApiTimer \<Rightarrow> WindowApiTimer" where
  "member_op (Add w) t = AddWindowApi w t"
| "member_op (Remove w) t = RemoveWindowApi w t"
| "member_op Clear t = ClearWindows t"

definition cache_ok :: "WindowApiTimer \<Rightarrow> bool" where
  "cache_ok t = (windowApis_dirty' t \<or> windowApis_cache' t = windowApis' t)"

definition ms :: "WindowApiTimer \<Rightarrow> int \<Rightarrow> double" where
  "ms t counter = real_of_int counter * 1000 / real_of_int (qpc_frequency' t)"

subsection \<open>Auxiliary notions for the statements\<close>

text \<open>
  The \<^verbatim>\<open>KillTimer\<close> calls of stopping the identifiers \<open>ks\<close> one after the other in
  a map \<open>anims\<close> in which they are pairwise different.
\<close>

definition kills :: "UINT_PTR list \<Rightarrow> (UINT_PTR \<times> WindowAnimation) list \<Rightarrow> win32_call list" where
  "kills ks anims =
     concat (map (\<lambda>k. case map_of anims k of
                         None \<Rightarrow> []
                       | Some a \<Rightarrow> if hwnd a \<noteq> 0 then [KillTimer (hwnd a) k] else []) ks)"

text \<open>The override of the spring members in \<^verbatim>\<open>StartAnimation\<close>.\<close>

definition spring_override :: "AnimationRequest \<Rightarrow> WindowApi \<Rightarrow> WindowApi" where
  "spring_override r api =
     (if use_custom_spring r
      then api\<lparr>spring_damping' := req_spring_damping r,
               spring_stiffness' := req_spring_stiffness r\<rparr>
      else api)"

fun is_KillTimer :: "win32_call \<Rightarrow> bool" where
  "is_KillTimer (KillTimer h k) = True"
| "is_KillTimer c = False"

text \<open>
  What a completing \<^verbatim>\<open>UpdateAnimation\<close> appends to the log: the final frame, the
  \<^verbatim>\<open>KillTimer\<close> call and, when there is one, the completion callback.
\<close>

definition final_calls :: "WindowAnimation \<Rightarrow> win32_call list" where
  "final_calls anim =
     ApplyAnimationFrame anim 1 []
     @ [KillTimer (hwnd anim) (timer_id anim)]
     @ (case on_complete anim of Some cb \<Rightarrow> [Invoke cb] | None \<Rightarrow> [])"

text \<open>The delta that a tick delivers for a measured gap.\<close>

definition capped :: "double \<Rightarrow> double" where
  "capped measured = (if measured > 100 then 16 else measured)"

text \<open>The invariant of the map along every run.\<close>

definition inv_anims :: "(UINT_PTR \<times> WindowAnimation) list \<Rightarrow> bool" where
  "inv_anims al = (registry_ok al \<and> no_conflict al)"

subsection \<open>Concrete inputs\<close>

definition one_anim :: WindowAnimation where
  "one_anim =
     WindowAnimation_default
       \<lparr>timer_id := 1000, hwnd := 7, on_complete := Some 3, is_active := True\<rparr>"

definition env0 :: win32_env where
  "env0 = \<lparr>GetWindowHandle = 7, dpi = 96,
            extended_frame_bounds = Some \<lparr>r_left = 0, r_top = 0, r_right = 800, r_bottom = 600\<rparr>,
            window_rect = Some \<lparr>r_left = 0, r_top = 0, r_right = 800, r_bottom = 600\<rparr>,
            stack_frame_rect = \<lparr>r_left = 0, r_top = 0, r_right = 0, r_bottom = 0\<rparr>,
            ex_style = 0, layered_attributes = None,
            qpc_counter = 0, qpc_frequency = 10000000\<rparr>"

definition req0 :: AnimationRequest where
  "req0 = \<lparr>req_property = kPosition, req_easing = kSpringBounce,
            req_target_x = 100, req_target_y = 100, req_target_width = 0,
            req_target_height = 0, req_target_opacity = 1, req_duration = 300,
            use_custom_spring = False, req_spring_damping = 7 / 10,
            req_spring_stiffness = 100, req_on_complete = None\<rparr>"

definition req_wild :: AnimationRequest where
  "req_wild = req0\<lparr>use_custom_spring := True, req_spring_damping := 5,
                    req_spring_stiffness := 1000\<rparr>"

definition pos_anim :: WindowAnimation where
  "pos_anim = one_anim\<lparr>easing := kLinear, target_x := 100, target_y := 100\<rparr>"

definition timer0 :: WindowApiTimer where
  "timer0 = \<lparr>windows' = [4], windowApis' = [5, 9], windowApis_cache' = [],
              windowApis_dirty' = True, qpc_frequency' = 10000000,
              last_tick_time_ms' = 0\<rparr>"

definition stP :: "WindowApi \<times> win32_call list" where
  "stP = ((WindowApi_new (Some 1))\<lparr>active_animations' := [(1000, pos_anim)],
                                    next_timer_id' := 1001\<rparr>,
          [SetTimer 7 1000 16])"

definition reqB :: AnimationRequest where
  "reqB = req0\<lparr>req_property := kBounds, req_target_width := 640, req_target_height := 480\<rparr>"

definition reqS :: AnimationRequest where
  "reqS = req0\<lparr>req_property := kOpacity, req_target_opacity := 0\<rparr>"

definition env_plain :: win32_env where
  "env_plain = env0\<lparr>layered_attributes := Some (128, 2)\<rparr>"

definition env_layered :: win32_env where
  "env_layered = env0\<lparr>ex_style := 0x80000, layered_attributes := Some (128, 2)\<rparr>"

definition stS :: "WindowApi \<times> win32_call list" where
  "stS = snd (StartAnimation reqS env0 (SetSpringParameters 1 100 (WindowApi_new (Some 1)), []))"

definition env_mid :: win32_env where
  "env_mid = env0\<lparr>qpc_counter := 1500000\<rparr>"

definition animS :: WindowAnimation where
  "animS = WindowAnimation_default
     \<lparr>timer_id := 1000, hwnd := 7, property := kOpacity, target_opacity := 0,
      duration := 300, spring_damping := 1, spring_stiffness := 100, is_active := True\<rparr>"

section \<open>Properties\<close>

subsection \<open>Easing\<close>

text \<open>
  C7. For Linear, EaseIn, EaseOut and EaseInOut the eased value is exactly 0 at
  \<open>t = 0\<close> and exactly 1 at \<open>t = 1\<close>, and the input is clamped to \<open>[0, 1]\<close> first:
  every \<open>t < 0\<close> gives the value at 0 and every \<open>t > 1\<close> the value at 1.
\<close>

theorem CalculateEasing_endpoints:
  assumes "k \<in> {kLinear, kEaseIn, kEaseOut, kEaseInOut}"
  shows "CalculateEasing api 0 k = 0 \<and> CalculateEasing api 1 k = 1
         \<and> CalculateEasing api t k = CalculateEasing api (max 0 (min 1 t)) k
         \<and> (t < 0 \<longrightarrow> CalculateEasing api t k = CalculateEasing api 0 k)
         \<and> (t > 1 \<longrightarrow> CalculateEasing api t k = CalculateEasing api 1 k)"
  using assms by (auto simp: CalculateEasing_def Let_def max_def min_def)

theorem CalculateEasing_endpoints_witness:
  "kEaseInOut \<in> {kLinear, kEaseIn, kEaseOut, kEaseInOut}
   \<and> CalculateEasing (WindowApi_new None) 0 kEaseInOut = 0
   \<and> CalculateEasing (WindowApi_new None) 1 kEaseInOut = 1
   \<and> CalculateEasing (WindowApi_new None) (- 3) kEaseInOut = 0
   \<and> CalculateEasing (WindowApi_new None) 5 kEaseInOut = 1"
  using CalculateEasing_endpoints [of kEaseInOut "WindowApi_new None" "- 3"]
    CalculateEasing_endpoints [of kEaseInOut "WindowApi_new None" 5]
  by simp

text \<open>
  C3. For the spring easing, whatever the damping and the stiffness: the value at
  \<open>t = 0\<close> is exactly 0 and the value at \<open>t = 1\<close> is exactly 1, every \<open>t \<le> 0\<close> and
  every \<open>t \<ge> 1\<close> returns before the oscillator formula, and the value lies in
  \<open>[0, 1]\<close> for every \<open>t\<close>. The same holds through \<open>CalculateEasing\<close>, which reads the
  damping and the stiffness from the members.
\<close>

theorem CalculateSpringBounce_endpoints_range:
  "CalculateSpringBounce 0 d k = 0 \<and> CalculateSpringBounce 1 d k = 1
   \<and> (t \<le> 0 \<longrightarrow> CalculateSpringBounce t d k = 0)
   \<and> (t \<ge> 1 \<longrightarrow> CalculateSpringBounce t d k = 1)
   \<and> 0 \<le> CalculateSpringBounce t d k \<and> CalculateSpringBounce t d k \<le> 1
   \<and> CalculateEasing api 0 kSpringBounce = 0
   \<and> CalculateEasing api 1 kSpringBounce = 1
   \<and> 0 \<le> CalculateEasing api t kSpringBounce \<and> CalculateEasing api t kSpringBounce \<le> 1"
  by (simp add: CalculateSpringBounce_def CalculateEasing_def Let_def)

theorem CalculateSpringBounce_endpoints_range_witness:
  "(- 1 \<le> (0::real)) \<and> CalculateSpringBounce (- 1) (7 / 10) 100 = 0
   \<and> (2 \<ge> (1::real)) \<and> CalculateSpringBounce 2 (7 / 10) 100 = 1
   \<and> 0 \<le> CalculateSpringBounce (1 / 2) (7 / 10) 100
   \<and> CalculateSpringBounce (1 / 2) (7 / 10) 100 \<le> 1"
  using CalculateSpringBounce_endpoints_range [of "7 / 10" 100 "- 1"]
    CalculateSpringBounce_endpoints_range [of "7 / 10" 100 2]
    CalculateSpringBounce_endpoints_range [of "7 / 10" 100 "1 / 2"]
  by simp

subsection \<open>Stopping one animation\<close>

lemma StopAnimation_anims:
  "active_animations' (fst (StopAnimation tid st)) =
     AList.delete tid (active_animations' (fst st))"
proof (cases "map_of (active_animations' (fst st)) tid")
  case None
  then have "tid \<notin> fst ` set (active_animations' (fst st))"
    by (simp add: map_of_eq_None_iff)
  then have "AList.delete tid (active_animations' (fst st)) = active_animations' (fst st)"
    by simp
  with None show ?thesis by (simp add: StopAnimation_def Let_def)
next
  case (Some a)
  then show ?thesis by (simp add: StopAnimation_def Let_def)
qed

lemma StopAnimation_members:
  "window' (fst (StopAnimation tid st)) = window' (fst st)"
  "next_timer_id' (fst (StopAnimation tid st)) = next_timer_id' (fst st)"
  "spring_damping' (fst (StopAnimation tid st)) = spring_damping' (fst st)"
  "spring_stiffness' (fst (StopAnimation tid st)) = spring_stiffness' (fst st)"
  by (simp_all add: StopAnimation_def Let_def split: option.splits)

lemma StopAnimation_calls:
  "snd (StopAnimation tid st) =
     snd st @ (case map_of (active_animations' (fst st)) tid of
                 None \<Rightarrow> []
               | Some anim \<Rightarrow> if hwnd anim \<noteq> 0 then [KillTimer (hwnd anim) tid] else [])"
  by (simp add: StopAnimation_def Let_def split: option.splits)

lemma StopAnimation_absent:
  "map_of (active_animations' (fst st)) tid = None \<Longrightarrow> StopAnimation tid st = st"
  by (simp add: StopAnimation_def Let_def)

lemma map_of_delete_same: "map_of (AList.delete k al) k = None"
  by (simp add: delete_conv')

text \<open>
  C6. \<open>StopAnimation\<close> is idempotent and fires no callback. If a record with the
  identifier is present, the record is erased and the timer of its window is
  killed (for a record with a window, which every stored record has); no completion
  callback is invoked; a second call on the same identifier finds nothing and
  leaves the registry and the log as they are.
\<close>

theorem StopAnimation_idempotent:
  "StopAnimation tid (StopAnimation tid st) = StopAnimation tid st
   \<and> filter is_Invoke (snd (StopAnimation tid st)) = filter is_Invoke (snd st)
   \<and> map_of (active_animations' (fst (StopAnimation tid st))) tid = None
   \<and> (map_of (active_animations' (fst st)) tid = None \<longrightarrow> StopAnimation tid st = st)
   \<and> (map_of (active_animations' (fst st)) tid = Some anim \<longrightarrow>
        fst (StopAnimation tid st) =
          (fst st)\<lparr>active_animations' := AList.delete tid (active_animations' (fst st))\<rparr>
        \<and> snd (StopAnimation tid st) =
            snd st @ (if hwnd anim \<noteq> 0 then [KillTimer (hwnd anim) tid] else []))
   \<and> (registry_ok (active_animations' (fst st))
        \<and> map_of (active_animations' (fst st)) tid = Some anim \<longrightarrow>
        snd (StopAnimation tid st) = snd st @ [KillTimer (hwnd anim) tid])"
proof -
  have gone: "map_of (active_animations' (fst (StopAnimation tid st))) tid = None"
    by (simp add: StopAnimation_anims map_of_delete_same)
  have idem: "StopAnimation tid (StopAnimation tid st) = StopAnimation tid st"
    using gone by (rule StopAnimation_absent)
  have quiet: "filter is_Invoke (snd (StopAnimation tid st)) = filter is_Invoke (snd st)"
    by (simp add: StopAnimation_calls split: option.splits)
  have present: "fst (StopAnimation tid st) =
          (fst st)\<lparr>active_animations' := AList.delete tid (active_animations' (fst st))\<rparr>
        \<and> snd (StopAnimation tid st) =
            snd st @ (if hwnd anim \<noteq> 0 then [KillTimer (hwnd anim) tid] else [])"
    if "map_of (active_animations' (fst st)) tid = Some anim"
    using that by (simp add: StopAnimation_def Let_def)
  have ok: "snd (StopAnimation tid st) = snd st @ [KillTimer (hwnd anim) tid]"
    if r: "registry_ok (active_animations' (fst st))"
      and m: "map_of (active_animations' (fst st)) tid = Some anim"
  proof -
    from m have "(tid, anim) \<in> set (active_animations' (fst st))" by (rule map_of_SomeD)
    with r have "hwnd anim \<noteq> 0" by (auto simp: registry_ok_def list_all_iff)
    with m show ?thesis by (simp add: StopAnimation_calls)
  qed
  show ?thesis using gone idem quiet present ok StopAnimation_absent by blast
qed

theorem StopAnimation_idempotent_witness:
  "registry_ok [(1000, one_anim)]
   \<and> map_of [(1000 :: 64 word, one_anim)] 1000 = Some one_anim
   \<and> StopAnimation 1000
        ((WindowApi_new (Some 1))\<lparr>active_animations' := [(1000, one_anim)]\<rparr>, [])
       = (WindowApi_new (Some 1), [KillTimer 7 1000])
   \<and> map_of (active_animations' (WindowApi_new (Some 1))) 1000 = None
   \<and> StopAnimation 1000 (WindowApi_new (Some 1), [KillTimer 7 1000])
       = (WindowApi_new (Some 1), [KillTimer 7 1000])"
  using StopAnimation_idempotent
      [of 1000 "((WindowApi_new (Some 1))\<lparr>active_animations' := [(1000, one_anim)]\<rparr>, [])"
          one_anim]
    StopAnimation_idempotent [of 1000 "(WindowApi_new (Some 1), [KillTimer 7 1000])" one_anim]
  by (simp add: registry_ok_def one_anim_def WindowAnimation_default_def WindowApi_new_def
      prod_eq_iff)

subsection \<open>Stopping the conflicting animations\<close>

lemma fold_StopAnimation_anims:
  "active_animations' (fst (fold StopAnimation ks st)) =
     filter (\<lambda>pair. fst pair \<notin> set ks) (active_animations' (fst st))"
proof (induction ks arbitrary: st)
  case Nil
  show ?case by simp
next
  case (Cons k ks)
  have "filter (\<lambda>pair. fst pair \<notin> set ks) (AList.delete k (active_animations' (fst st)))
        = filter (\<lambda>pair. fst pair \<notin> set (k # ks)) (active_animations' (fst st))"
    by (auto simp: AList.delete_eq intro: filter_cong)
  with Cons show ?case by (simp add: StopAnimation_anims)
qed

lemma fold_StopAnimation_members:
  "window' (fst (fold StopAnimation ks st)) = window' (fst st)"
  "next_timer_id' (fst (fold StopAnimation ks st)) = next_timer_id' (fst st)"
  "spring_damping' (fst (fold StopAnimation ks st)) = spring_damping' (fst st)"
  "spring_stiffness' (fst (fold StopAnimation ks st)) = spring_stiffness' (fst st)"
  by (induction ks arbitrary: st; simp add: StopAnimation_members)+

lemma kills_delete: "k \<notin> set ks \<Longrightarrow> kills ks (AList.delete k anims) = kills ks anims"
proof -
  assume "k \<notin> set ks"
  then have "\<forall>x \<in> set ks. map_of (AList.delete k anims) x = map_of anims x"
    by (auto simp: delete_conv')
  then show ?thesis unfolding kills_def by (auto intro!: arg_cong [where f = concat])
qed

lemma fold_StopAnimation_calls:
  "distinct ks \<Longrightarrow>
   snd (fold StopAnimation ks st) = snd st @ kills ks (active_animations' (fst st))"
proof (induction ks arbitrary: st)
  case Nil
  show ?case by (simp add: kills_def)
next
  case (Cons k ks)
  then have "snd (fold StopAnimation ks (StopAnimation k st)) =
      snd (StopAnimation k st) @ kills ks (AList.delete k (active_animations' (fst st)))"
    by (simp add: StopAnimation_anims)
  also have "\<dots> = snd (StopAnimation k st) @ kills ks (active_animations' (fst st))"
    using Cons.prems by (simp add: kills_delete)
  also have "\<dots> = snd st @ kills (k # ks) (active_animations' (fst st))"
    by (simp add: StopAnimation_calls kills_def)
  finally show ?case by simp
qed

lemma kills_of_entries:
  assumes "distinct (map fst anims)" "set xs \<subseteq> set anims"
    "\<forall>pair \<in> set xs. hwnd (snd pair) \<noteq> 0"
  shows "kills (map fst xs) anims = map (\<lambda>pair. KillTimer (hwnd (snd pair)) (fst pair)) xs"
  using assms(2,3)
proof (induction xs)
  case Nil
  show ?case by (simp add: kills_def)
next
  case (Cons x xs)
  then have "(fst x, snd x) \<in> set anims" by simp
  with assms(1) have "map_of anims (fst x) = Some (snd x)" by (rule map_of_is_SomeI)
  moreover have "kills (map fst (x # xs)) anims =
     (case map_of anims (fst x) of None \<Rightarrow> []
      | Some a \<Rightarrow> if hwnd a \<noteq> 0 then [KillTimer (hwnd a) (fst x)] else [])
     @ kills (map fst xs) anims"
    by (simp add: kills_def)
  ultimately show ?case using Cons by simp
qed

lemma distinct_keys_filter:
  "distinct (map fst anims) \<Longrightarrow> distinct (map fst (filter P anims))"
  by (simp add: distinct_map_filter)

lemma key_in_filter:
  assumes "distinct (map fst anims)" "pair \<in> set anims"
  shows "fst pair \<in> fst ` set (filter P anims) \<longleftrightarrow> P pair"
proof
  assume "fst pair \<in> fst ` set (filter P anims)"
  then obtain q where q: "q \<in> set anims" "P q" "fst q = fst pair" by auto
  with assms have "q = pair"
    by (metis eq_key_imp_eq_value prod.collapse)
  with q show "P pair" by simp
next
  assume "P pair"
  with assms(2) show "fst pair \<in> fst ` set (filter P anims)" by auto
qed

lemma StopConflictingAnimations_registry_ok:
  assumes "registry_ok (active_animations' (fst st))"
  shows "StopConflictingAnimations p st =
     ((fst st)\<lparr>active_animations' :=
         filter (\<lambda>pair. \<not> (is_active (snd pair) \<and> conflicts p (property (snd pair))))
                (active_animations' (fst st))\<rparr>,
      snd st @ map (\<lambda>pair. KillTimer (hwnd (snd pair)) (fst pair))
                   (filter (\<lambda>pair. is_active (snd pair) \<and> conflicts p (property (snd pair)))
                           (active_animations' (fst st))))"
proof -
  let ?P = "\<lambda>pair. is_active (snd pair) \<and> conflicts p (property (snd pair))"
  let ?anims = "active_animations' (fst st)"
  let ?r = "fold StopAnimation (map fst (filter ?P ?anims)) st"
  from assms have d: "distinct (map fst ?anims)"
    and h: "\<forall>pair \<in> set ?anims. hwnd (snd pair) \<noteq> 0"
    by (auto simp: registry_ok_def list_all_iff)
  have "active_animations' (fst ?r) = filter (\<lambda>pair. fst pair \<notin> fst ` set (filter ?P ?anims)) ?anims"
    by (simp add: fold_StopAnimation_anims)
  also have "\<dots> = filter (\<lambda>pair. \<not> ?P pair) ?anims"
    using key_in_filter [OF d] by (intro filter_cong) auto
  finally have a: "active_animations' (fst ?r) = filter (\<lambda>pair. \<not> ?P pair) ?anims" .
  have "snd ?r = snd st @ kills (map fst (filter ?P ?anims)) ?anims"
    using d by (intro fold_StopAnimation_calls distinct_keys_filter)
  also have "kills (map fst (filter ?P ?anims)) ?anims =
      map (\<lambda>pair. KillTimer (hwnd (snd pair)) (fst pair)) (filter ?P ?anims)"
    using d h by (intro kills_of_entries) auto
  finally have c: "snd ?r = snd st @ map (\<lambda>pair. KillTimer (hwnd (snd pair)) (fst pair)) (filter ?P ?anims)" .
  have "fst ?r = (fst st)\<lparr>active_animations' := filter (\<lambda>pair. \<not> ?P pair) ?anims\<rparr>"
    using a by (intro WindowApi.equality) (simp_all add: fold_StopAnimation_members)
  with c show ?thesis
    by (simp add: StopConflictingAnimations_def to_stop_def prod_eq_iff)
qed

subsection \<open>Starting an animation\<close>

lemma create_instance_fields:
  "timer_id (fst (create_instance r env api c)) = next_timer_id' api"
  "hwnd (fst (create_instance r env api c)) = GetWindowHandle env"
  "property (fst (create_instance r env api c)) = req_property r"
  "easing (fst (create_instance r env api c)) = req_easing r"
  "duration (fst (create_instance r env api c)) = req_duration r"
  "spring_damping (fst (create_instance r env api c)) = spring_damping' api"
  "spring_stiffness (fst (create_instance r env api c)) = spring_stiffness' api"
  "on_complete (fst (create_instance r env api c)) = req_on_complete r"
  "is_active (fst (create_instance r env api c)) = True"
  "start_time_qpc (fst (create_instance r env api c)) = qpc_counter env"
  "progress (fst (create_instance r env api c)) = 0"
  by (cases "req_property r";
      simp add: create_instance_def Let_def WindowAnimation_default_def
           split: option.splits prod.splits)+

lemma create_instance_calls:
  "snd (create_instance r env api c) =
     c @ (if req_property r = kOpacity
          then (if ex_style env AND WS_EX_LAYERED = 0
                then [SetWindowLong (GetWindowHandle env) (ex_style env OR WS_EX_LAYERED)]
                else [GetLayeredWindowAttributes (GetWindowHandle env)])
          else [])"
  by (cases "req_property r"; simp add: create_instance_def Let_def)

lemma create_instance_start_opacity:
  "req_property r = kOpacity \<Longrightarrow>
   start_opacity (fst (create_instance r env api c)) =
     (if ex_style env AND WS_EX_LAYERED \<noteq> 0
      then (case layered_attributes env of
              Some (alpha, flags) \<Rightarrow>
                if flags AND LWA_ALPHA \<noteq> 0 then real (unat alpha) / 255 else 1
            | None \<Rightarrow> 1)
      else 1)"
  by (simp add: create_instance_def Let_def WindowAnimation_default_def
           split: option.splits prod.splits)

lemma StopConflictingAnimations_members:
  "window' (fst (StopConflictingAnimations p st)) = window' (fst st)"
  "next_timer_id' (fst (StopConflictingAnimations p st)) = next_timer_id' (fst st)"
  "spring_damping' (fst (StopConflictingAnimations p st)) = spring_damping' (fst st)"
  "spring_stiffness' (fst (StopConflictingAnimations p st)) = spring_stiffness' (fst st)"
  by (simp_all add: StopConflictingAnimations_def fold_StopAnimation_members)

lemma StartAnimation_invalid:
  "window' (fst st) = None \<or> GetWindowHandle env = 0 \<Longrightarrow> StartAnimation r env st = (0, st)"
  by (auto simp: StartAnimation_def split: option.splits)


lemma StartAnimation_valid:
  assumes "window' (fst st) \<noteq> None" "GetWindowHandle env \<noteq> 0"
  shows "StartAnimation r env st =
    (let st1 = StopConflictingAnimations (req_property r) st;
         api2 = spring_override r (fst st1);
         started = create_instance r env api2 (snd st1)
     in (next_timer_id' (fst st),
         api2\<lparr>next_timer_id' := next_timer_id' (fst st) + 1,
               active_animations' :=
                 AList.update (next_timer_id' (fst st)) (fst started)
                   (active_animations' (fst st1))\<rparr>,
         snd started @ [SetTimer (GetWindowHandle env) (next_timer_id' (fst st)) 16]))"
  using assms
  by (auto simp: StartAnimation_def Let_def spring_override_def create_instance_fields
        StopConflictingAnimations_members kAnimationTimerInterval_def)

lemma fold_StopAnimation_only_kills:
  "\<exists>ks. snd (fold StopAnimation tids st) = snd st @ ks \<and> list_all is_KillTimer ks"
proof (induction tids arbitrary: st)
  case Nil
  show ?case by simp
next
  case (Cons k tids)
  obtain ks where ks: "snd (fold StopAnimation tids (StopAnimation k st)) =
      snd (StopAnimation k st) @ ks" "list_all is_KillTimer ks"
    using Cons [of "StopAnimation k st"] by blast
  obtain k1 where k1: "snd (StopAnimation k st) = snd st @ k1" "list_all is_KillTimer k1"
    by (simp add: StopAnimation_calls split: option.splits)
  from ks k1 have "snd (fold StopAnimation (k # tids) st) = snd st @ (k1 @ ks)
      \<and> list_all is_KillTimer (k1 @ ks)"
    by simp
  then show ?case by blast
qed

lemma StopConflictingAnimations_only_kills:
  "\<exists>ks. snd (StopConflictingAnimations p st) = snd st @ ks \<and> list_all is_KillTimer ks"
  unfolding StopConflictingAnimations_def by (rule fold_StopAnimation_only_kills)

lemma StartAnimation_stored:
  assumes "window' (fst st) \<noteq> None" "GetWindowHandle env \<noteq> 0"
  shows "map_of (active_animations' (fst (snd (StartAnimation r env st))))
           (fst (StartAnimation r env st)) =
         Some (fst (create_instance r env
                 (spring_override r (fst (StopConflictingAnimations (req_property r) st)))
                 (snd (StopConflictingAnimations (req_property r) st))))"
  using assms by (simp add: StartAnimation_valid Let_def update_conv')

lemma StartAnimation_calls:
  assumes "window' (fst st) \<noteq> None" "GetWindowHandle env \<noteq> 0"
  shows "snd (snd (StartAnimation r env st)) =
     snd (StopConflictingAnimations (req_property r) st)
     @ (if req_property r = kOpacity
        then (if ex_style env AND WS_EX_LAYERED = 0
              then [SetWindowLong (GetWindowHandle env) (ex_style env OR WS_EX_LAYERED)]
              else [GetLayeredWindowAttributes (GetWindowHandle env)])
        else [])
     @ [SetTimer (GetWindowHandle env) (next_timer_id' (fst st)) 16]"
  using assms by (simp add: StartAnimation_valid Let_def create_instance_calls)

lemma StartAnimation_spring:
  assumes "window' (fst st) \<noteq> None" "GetWindowHandle env \<noteq> 0"
  shows "spring_damping' (fst (snd (StartAnimation r env st))) =
           (if use_custom_spring r then req_spring_damping r else spring_damping' (fst st))"
    "spring_stiffness' (fst (snd (StartAnimation r env st))) =
           (if use_custom_spring r then req_spring_stiffness r else spring_stiffness' (fst st))"
  using assms
  by (simp_all add: StartAnimation_valid Let_def spring_override_def
      StopConflictingAnimations_members)

subsection \<open>Members along a run\<close>

lemma OnTimer_members:
  "window' (fst (snd (OnTimer k env st))) = window' (fst st)"
  "next_timer_id' (fst (snd (OnTimer k env st))) = next_timer_id' (fst st)"
  "spring_damping' (fst (snd (OnTimer k env st))) = spring_damping' (fst st)"
  "spring_stiffness' (fst (snd (OnTimer k env st))) = spring_stiffness' (fst st)"
  by (simp_all add: OnTimer_def Let_def split: option.splits)

lemma StopAllAnimations_members:
  "window' (fst (StopAllAnimations env st)) = window' (fst st)"
  "next_timer_id' (fst (StopAllAnimations env st)) = next_timer_id' (fst st)"
  by (simp_all add: StopAllAnimations_def Let_def split: option.splits)

lemma StartAnimation_window:
  "window' (fst (snd (StartAnimation r env st))) = window' (fst st)"
proof (cases "window' (fst st) = None \<or> GetWindowHandle env = 0")
  case True
  then show ?thesis by (simp add: StartAnimation_invalid)
next
  case False
  then show ?thesis
    by (simp add: StartAnimation_valid Let_def spring_override_def
        StopConflictingAnimations_members)
qed

lemma StartAnimation_next:
  "next_timer_id' (fst (snd (StartAnimation r env st))) =
     (if window' (fst st) = None \<or> GetWindowHandle env = 0
      then next_timer_id' (fst st) else next_timer_id' (fst st) + 1)"
proof (cases "window' (fst st) = None \<or> GetWindowHandle env = 0")
  case True
  then show ?thesis by (simp add: StartAnimation_invalid)
next
  case False
  then show ?thesis by (simp add: StartAnimation_valid Let_def)
qed

lemma perform_window: "window' (fst (perform c env st)) = window' (fst st)"
  by (cases c)
    (simp_all add: perform_def StartAnimation_window StopAnimation_members
      StopAllAnimations_members OnTimer_members SetSpringParameters_def)

lemma perform_next:
  "next_timer_id' (fst (perform c env st)) = next_timer_id' (fst st)
   \<or> next_timer_id' (fst (perform c env st)) = next_timer_id' (fst st) + 1"
  by (cases c)
    (simp_all add: perform_def StartAnimation_next StopAnimation_members
      StopAllAnimations_members OnTimer_members SetSpringParameters_def)

lemma run_window: "window' (fst (run cs st)) = window' (fst st)"
  by (induction cs arbitrary: st) (simp_all add: perform_window)

lemma unat_succ:
  fixes x :: "64 word"
  assumes "unat x + 1 < 2 ^ 64"
  shows "unat (x + 1) = unat x + 1"
  using assms unat_add_lem [of x 1] by simp

lemma run_next_bound:
  "unat (next_timer_id' (fst st)) + length cs < 2 ^ 64 \<Longrightarrow>
   unat (next_timer_id' (fst st)) \<le> unat (next_timer_id' (fst (run cs st)))
   \<and> unat (next_timer_id' (fst (run cs st))) \<le> unat (next_timer_id' (fst st)) + length cs"
proof (induction cs arbitrary: st)
  case Nil
  show ?case by simp
next
  case (Cons c cs)
  let ?st = "perform (fst c) (snd c) st"
  have step: "unat (next_timer_id' (fst ?st)) = unat (next_timer_id' (fst st))
      \<or> unat (next_timer_id' (fst ?st)) = unat (next_timer_id' (fst st)) + 1"
  proof -
    from Cons.prems have "unat (next_timer_id' (fst st)) + 1 < 2 ^ 64" by simp
    then have "unat (next_timer_id' (fst st) + 1) = unat (next_timer_id' (fst st)) + 1"
      by (rule unat_succ)
    with perform_next [of "fst c" "snd c" st] show ?thesis by auto
  qed
  with Cons.prems have "unat (next_timer_id' (fst ?st)) + length cs < 2 ^ 64" by auto
  from Cons.IH [OF this] step show ?case by auto
qed

text \<open>
  C5. If the pointer to the host window is null or the window handle is null,
  \<open>StartAnimation\<close> returns 0 and the whole state is unchanged: the registry, the
  spring members, the next identifier and the log (no timer is killed or armed).
  Otherwise it returns the next identifier. Identifiers start at 1000, so along
  every run of fewer than \<open>2^64 - 1000\<close> calls from a new \<open>WindowApi\<close> the identifier
  of a started animation is at least 1000 and never the sentinel 0.
\<close>

theorem StartAnimation_invalid_window:
  "(window' (fst st) = None \<or> GetWindowHandle env = 0 \<longrightarrow>
      StartAnimation request env st = (0, st))
   \<and> (window' (fst st) \<noteq> None \<and> GetWindowHandle env \<noteq> 0 \<longrightarrow>
      fst (StartAnimation request env st) = next_timer_id' (fst st))
   \<and> next_timer_id' (WindowApi_new window) = 1000
   \<and> (length cs < 2 ^ 64 - 1000 \<and> window \<noteq> None \<and> GetWindowHandle env \<noteq> 0 \<longrightarrow>
      1000 \<le> fst (StartAnimation request env (run cs (WindowApi_new window, [])))
      \<and> fst (StartAnimation request env (run cs (WindowApi_new window, []))) \<noteq> 0)"
proof -
  let ?st = "run cs (WindowApi_new window, [])"
  have valid: "fst (StartAnimation request env st) = next_timer_id' (fst st)"
    if "window' (fst st) \<noteq> None" "GetWindowHandle env \<noteq> 0" for st
    using that by (simp add: StartAnimation_valid Let_def)
  have base: "next_timer_id' (WindowApi_new window) = 1000"
    by (simp add: WindowApi_new_def)
  have ids: "1000 \<le> fst (StartAnimation request env ?st)
      \<and> fst (StartAnimation request env ?st) \<noteq> 0"
    if len: "length cs < 2 ^ 64 - 1000" and w: "window \<noteq> None" and h: "GetWindowHandle env \<noteq> 0"
  proof -
    have "window' (fst ?st) = window" by (simp add: run_window WindowApi_new_def)
    with w h have r: "fst (StartAnimation request env ?st) = next_timer_id' (fst ?st)"
      by (simp add: valid)
    from len have "unat (next_timer_id' (fst (WindowApi_new window, []::win32_call list)))
        + length cs < 2 ^ 64"
      by (simp add: base)
    from run_next_bound [OF this]
    have "1000 \<le> unat (next_timer_id' (fst ?st))" by (simp add: base)
    then have "(1000 :: 64 word) \<le> next_timer_id' (fst ?st)"
      by (simp add: word_le_nat_alt)
    with r show ?thesis by auto
  qed
  show ?thesis using StartAnimation_invalid valid base ids by blast
qed

theorem StartAnimation_invalid_window_witness:
  "StartAnimation req0 env0 (WindowApi_new None, []) = (0, WindowApi_new None, [])
   \<and> StartAnimation req0 (env0\<lparr>GetWindowHandle := 0\<rparr>) (WindowApi_new (Some 1), [])
       = (0, WindowApi_new (Some 1), [])
   \<and> length [(Start req0, env0)] < 2 ^ 64 - 1000
   \<and> 1000 \<le> fst (StartAnimation req0 env0 (run [(Start req0, env0)] (WindowApi_new (Some 1), [])))"
  using StartAnimation_invalid_window [of "(WindowApi_new None, [])" env0 req0 None "[]"]
    StartAnimation_invalid_window [of "(WindowApi_new (Some 1), [])" "env0\<lparr>GetWindowHandle := 0\<rparr>" req0 None "[]"]
    StartAnimation_invalid_window [of "(WindowApi_new (Some 1), [])" env0 req0 "Some 1" "[(Start req0, env0)]"]
  by (simp add: WindowApi_new_def env0_def)

text \<open>
  C9. A \<open>StartAnimation\<close> that passes the window guard with \<open>use_custom_spring\<close> set
  stores the damping and the stiffness of the request as they are, in the members
  and in the new record; no clamping is applied. So the bounds that
  \<open>SetSpringParameters\<close> enforces are no invariant of the members: a run reaches
  the damping 5 and the stiffness 1000.
\<close>

theorem StartAnimation_custom_spring_raw:
  "(window' (fst st) \<noteq> None \<and> GetWindowHandle env \<noteq> 0 \<and> use_custom_spring request \<longrightarrow>
      spring_damping' (fst (snd (StartAnimation request env st))) = req_spring_damping request
      \<and> spring_stiffness' (fst (snd (StartAnimation request env st))) =
          req_spring_stiffness request
      \<and> (\<exists>anim. map_of (active_animations' (fst (snd (StartAnimation request env st))))
                   (fst (StartAnimation request env st)) = Some anim
            \<and> spring_damping anim = req_spring_damping request
            \<and> spring_stiffness anim = req_spring_stiffness request))
   \<and> \<not> (\<forall>cs window.
           1 / 10 \<le> spring_damping' (fst (run cs (WindowApi_new window, [])))
           \<and> spring_damping' (fst (run cs (WindowApi_new window, []))) \<le> 2
           \<and> 10 \<le> spring_stiffness' (fst (run cs (WindowApi_new window, [])))
           \<and> spring_stiffness' (fst (run cs (WindowApi_new window, []))) \<le> 500)"
proof -
  let ?st = "(SetSpringParameters 5 1000 (WindowApi_new (Some 1)), [])"
  have "run [(SetSpring 5 1000, env0), (Start req_wild, env0)] (WindowApi_new (Some 1), [])
        = snd (StartAnimation req_wild env0 ?st)"
    by (simp add: perform_def)
  moreover have "spring_damping' (fst (snd (StartAnimation req_wild env0 ?st))) = 5"
    by (simp add: StartAnimation_spring SetSpringParameters_def WindowApi_new_def env0_def
        req_wild_def)
  ultimately have "\<not> spring_damping' (fst (run [(SetSpring 5 1000, env0), (Start req_wild, env0)]
      (WindowApi_new (Some 1), []))) \<le> 2"
    by simp
  then have "\<not> (\<forall>cs window.
           1 / 10 \<le> spring_damping' (fst (run cs (WindowApi_new window, [])))
           \<and> spring_damping' (fst (run cs (WindowApi_new window, []))) \<le> 2
           \<and> 10 \<le> spring_stiffness' (fst (run cs (WindowApi_new window, [])))
           \<and> spring_stiffness' (fst (run cs (WindowApi_new window, []))) \<le> 500)"
    by blast
  then show ?thesis
    by (simp add: StartAnimation_spring StartAnimation_stored create_instance_fields
        spring_override_def)
qed

theorem StartAnimation_custom_spring_raw_witness:
  "window' (fst (SetSpringParameters 5 1000 (WindowApi_new (Some 1)), [])) \<noteq> None
   \<and> GetWindowHandle env0 \<noteq> 0
   \<and> use_custom_spring req_wild
   \<and> spring_damping' (SetSpringParameters 5 1000 (WindowApi_new (Some 1))) = 2
   \<and> spring_stiffness' (SetSpringParameters 5 1000 (WindowApi_new (Some 1))) = 500
   \<and> spring_damping' (fst (snd (StartAnimation req_wild env0
        (SetSpringParameters 5 1000 (WindowApi_new (Some 1)), [])))) = 5
   \<and> spring_stiffness' (fst (snd (StartAnimation req_wild env0
        (SetSpringParameters 5 1000 (WindowApi_new (Some 1)), [])))) = 1000"
  using StartAnimation_custom_spring_raw [of "(SetSpringParameters 5 1000 (WindowApi_new (Some 1)), [])" env0 req_wild]
  by (simp add: WindowApi_new_def env0_def req0_def req_wild_def SetSpringParameters_def)

text \<open>
  C10. A \<open>StartAnimation\<close> for Opacity that passes the window guard, on a window
  whose extended style lacks the layered flag: between the eviction and the timer
  the only call is the \<open>SetWindowLong\<close> that adds the flag, the layered attributes
  are not queried, and the start opacity of the record is 1. On a window that was
  layered before, the attributes are queried, and the start opacity is the alpha
  over 255 when the query succeeds with the alpha flag set, and 1 otherwise.
\<close>

theorem StartAnimation_opacity_start:
  assumes "window' (fst st) \<noteq> None" "GetWindowHandle env \<noteq> 0"
    "req_property request = kOpacity"
  shows "\<exists>anim kills.
      map_of (active_animations' (fst (snd (StartAnimation request env st))))
        (fst (StartAnimation request env st)) = Some anim
      \<and> list_all is_KillTimer kills
      \<and> (ex_style env AND WS_EX_LAYERED = 0 \<longrightarrow>
            start_opacity anim = 1
            \<and> snd (snd (StartAnimation request env st)) =
                snd st @ kills
                @ [SetWindowLong (GetWindowHandle env) (ex_style env OR WS_EX_LAYERED),
                   SetTimer (GetWindowHandle env) (fst (StartAnimation request env st)) 16]
            \<and> (ex_style env OR WS_EX_LAYERED) AND WS_EX_LAYERED \<noteq> 0)
      \<and> (ex_style env AND WS_EX_LAYERED \<noteq> 0 \<longrightarrow>
            snd (snd (StartAnimation request env st)) =
                snd st @ kills
                @ [GetLayeredWindowAttributes (GetWindowHandle env),
                   SetTimer (GetWindowHandle env) (fst (StartAnimation request env st)) 16]
            \<and> start_opacity anim =
                (case layered_attributes env of
                   Some (alpha, flags) \<Rightarrow>
                     if flags AND LWA_ALPHA \<noteq> 0 then real (unat alpha) / 255 else 1
                 | None \<Rightarrow> 1))"
proof -
  obtain kills where k: "snd (StopConflictingAnimations kOpacity st) = snd st @ kills"
      "list_all is_KillTimer kills"
    using StopConflictingAnimations_only_kills by blast
  have id: "fst (StartAnimation request env st) = next_timer_id' (fst st)"
    using assms by (simp add: StartAnimation_valid Let_def)
  have bit: "(ex_style env OR WS_EX_LAYERED) AND WS_EX_LAYERED \<noteq> 0"
    by (simp add: WS_EX_LAYERED_def bit.conj_disj_distrib2)
  let ?anim = "fst (create_instance request env
                 (spring_override request (fst (StopConflictingAnimations kOpacity st)))
                 (snd (StopConflictingAnimations kOpacity st)))"
  have "map_of (active_animations' (fst (snd (StartAnimation request env st))))
        (fst (StartAnimation request env st)) = Some ?anim"
    using assms StartAnimation_stored [of st env request] by simp
  moreover have "ex_style env AND WS_EX_LAYERED = 0 \<longrightarrow>
            start_opacity ?anim = 1
            \<and> snd (snd (StartAnimation request env st)) =
                snd st @ kills
                @ [SetWindowLong (GetWindowHandle env) (ex_style env OR WS_EX_LAYERED),
                   SetTimer (GetWindowHandle env) (fst (StartAnimation request env st)) 16]
            \<and> (ex_style env OR WS_EX_LAYERED) AND WS_EX_LAYERED \<noteq> 0"
    using assms k bit
    by (simp add: StartAnimation_calls create_instance_start_opacity id)
  moreover have "ex_style env AND WS_EX_LAYERED \<noteq> 0 \<longrightarrow>
            snd (snd (StartAnimation request env st)) =
                snd st @ kills
                @ [GetLayeredWindowAttributes (GetWindowHandle env),
                   SetTimer (GetWindowHandle env) (fst (StartAnimation request env st)) 16]
            \<and> start_opacity ?anim =
                (case layered_attributes env of
                   Some (alpha, flags) \<Rightarrow>
                     if flags AND LWA_ALPHA \<noteq> 0 then real (unat alpha) / 255 else 1
                 | None \<Rightarrow> 1)"
    using assms k
    by (simp add: StartAnimation_calls create_instance_start_opacity id)
  ultimately show ?thesis using k(2) by blast
qed

theorem StartAnimation_opacity_start_witness:
  "window' (fst (WindowApi_new (Some 1), [])) \<noteq> None
   \<and> GetWindowHandle env_plain \<noteq> 0 \<and> GetWindowHandle env_layered \<noteq> 0
   \<and> req_property reqS = kOpacity
   \<and> ex_style env_plain AND WS_EX_LAYERED = 0
   \<and> ex_style env_layered AND WS_EX_LAYERED \<noteq> 0
   \<and> (\<exists>anim. map_of (active_animations'
                   (fst (snd (StartAnimation reqS env_plain (WindowApi_new (Some 1), [])))))
                 (fst (StartAnimation reqS env_plain (WindowApi_new (Some 1), []))) = Some anim
          \<and> start_opacity anim = 1)
   \<and> (\<exists>anim. map_of (active_animations'
                   (fst (snd (StartAnimation reqS env_layered (WindowApi_new (Some 1), [])))))
                 (fst (StartAnimation reqS env_layered (WindowApi_new (Some 1), []))) = Some anim
          \<and> start_opacity anim = 128 / 255)"
  using StartAnimation_opacity_start [of "(WindowApi_new (Some 1), [])" env_plain reqS]
    StartAnimation_opacity_start [of "(WindowApi_new (Some 1), [])" env_layered reqS]
  by (auto simp: WindowApi_new_def env0_def req0_def reqS_def env_plain_def env_layered_def
      WS_EX_LAYERED_def LWA_ALPHA_def)

subsection \<open>Completing an animation\<close>

lemma CalculateEasing_at_one: "CalculateEasing api 1 k = 1"
  by (cases k) (simp_all add: CalculateEasing_def CalculateSpringBounce_def Let_def)

lemma ApplyAnimationFrame_progress:
  "ApplyAnimationFrame (anim\<lparr>progress := p\<rparr>) e calls = ApplyAnimationFrame anim e calls"
  by (cases "property anim") (simp_all add: ApplyAnimationFrame_def)


lemma ApplyAnimationFrame_append:
  "ApplyAnimationFrame anim e calls = calls @ ApplyAnimationFrame anim e []"
  by (simp add: ApplyAnimationFrame_def Let_def split: AnimationPropertyType.splits)

lemma ApplyAnimationFrame_no_Invoke:
  "filter is_Invoke (ApplyAnimationFrame anim e []) = []"
  by (simp add: ApplyAnimationFrame_def Let_def split: AnimationPropertyType.splits)

lemma UpdateAnimation_complete:
  assumes "is_active anim" "hwnd anim \<noteq> 0"
    "GetElapsedMs env (start_time_qpc anim) \<ge> real (unat (duration anim))"
  shows "UpdateAnimation api env anim calls =
     (anim\<lparr>progress := 1, is_active := False\<rparr>, calls @ final_calls anim)"
  using assms ApplyAnimationFrame_append [of anim 1 calls]
  by (simp add: UpdateAnimation_def Let_def final_calls_def ApplyAnimationFrame_progress
      split: option.splits)

lemma UpdateAnimation_inactive:
  "\<not> is_active anim \<Longrightarrow> UpdateAnimation api env anim calls = (anim, calls)"
  by (simp add: UpdateAnimation_def)

text \<open>
  C1. When \<open>UpdateAnimation\<close> runs on an active record with a window and the elapsed
  time has reached the duration: the progress becomes 1, the final frame is applied
  with the literal 1, which is the eased value at \<open>t = 1\<close> of every easing kind, the
  record is deactivated, its timer is killed, and then the completion callback, if
  there is one, is invoked once, as the last call. \<open>OnTimer\<close> erases the record, so a
  second \<open>OnTimer\<close> on the identifier finds nothing and changes nothing; a second
  \<open>UpdateAnimation\<close> on the deactivated record changes nothing either.
\<close>

theorem OnTimer_completes:
  assumes "map_of (active_animations' api) tid = Some anim"
    "is_active anim" "hwnd anim \<noteq> 0"
    "GetElapsedMs env (start_time_qpc anim) \<ge> real (unat (duration anim))"
  shows "UpdateAnimation api env anim calls =
           (anim\<lparr>progress := 1, is_active := False\<rparr>, calls @ final_calls anim)
    \<and> final_calls anim =
         ApplyAnimationFrame anim (CalculateEasing api 1 (easing anim)) []
         @ [KillTimer (hwnd anim) (timer_id anim)]
         @ (case on_complete anim of Some cb \<Rightarrow> [Invoke cb] | None \<Rightarrow> [])
    \<and> length (filter is_Invoke (final_calls anim)) = (if on_complete anim = None then 0 else 1)
    \<and> OnTimer tid env (api, calls) =
         (True, api\<lparr>active_animations' := AList.delete tid (active_animations' api)\<rparr>,
          calls @ final_calls anim)
    \<and> OnTimer tid env' (snd (OnTimer tid env (api, calls))) =
         (False, snd (OnTimer tid env (api, calls)))
    \<and> UpdateAnimation api' env' (fst (UpdateAnimation api env anim calls)) calls' =
         (fst (UpdateAnimation api env anim calls), calls')"
proof -
  note upd = UpdateAnimation_complete [OF assms(2,3,4)]
  have timer: "OnTimer tid env (api, calls) =
         (True, api\<lparr>active_animations' := AList.delete tid (active_animations' api)\<rparr>,
          calls @ final_calls anim)"
    using assms(1,2) by (simp add: OnTimer_def Let_def upd)
  have again: "OnTimer tid env' (snd (OnTimer tid env (api, calls))) =
         (False, snd (OnTimer tid env (api, calls)))"
    unfolding timer by (simp add: OnTimer_def Let_def map_of_delete_same)
  have once: "length (filter is_Invoke (final_calls anim)) =
      (if on_complete anim = None then 0 else 1)"
    by (simp add: final_calls_def ApplyAnimationFrame_no_Invoke split: option.splits)
  have frame: "final_calls anim =
         ApplyAnimationFrame anim (CalculateEasing api 1 (easing anim)) []
         @ [KillTimer (hwnd anim) (timer_id anim)]
         @ (case on_complete anim of Some cb \<Rightarrow> [Invoke cb] | None \<Rightarrow> [])"
    by (simp add: final_calls_def CalculateEasing_at_one)
  have idle: "UpdateAnimation api' env' (fst (UpdateAnimation api env anim calls)) calls' =
         (fst (UpdateAnimation api env anim calls), calls')"
    by (simp add: upd UpdateAnimation_inactive)
  show ?thesis using upd [of api calls] timer again once frame idle by simp
qed

theorem OnTimer_completes_witness:
  "map_of (active_animations' ((WindowApi_new (Some 1))\<lparr>active_animations' := [(1000, pos_anim)]\<rparr>))
      1000 = Some pos_anim
   \<and> is_active pos_anim \<and> hwnd pos_anim \<noteq> 0
   \<and> GetElapsedMs (env0\<lparr>qpc_counter := 3000000\<rparr>) (start_time_qpc pos_anim)
        \<ge> real (unat (duration pos_anim))
   \<and> OnTimer 1000 (env0\<lparr>qpc_counter := 3000000\<rparr>)
        ((WindowApi_new (Some 1))\<lparr>active_animations' := [(1000, pos_anim)]\<rparr>, [])
       = (True, WindowApi_new (Some 1),
          [SetWindowPos 7 100 100 0 0 [SWP_NOSIZE, SWP_NOZORDER, SWP_NOACTIVATE, SWP_DEFERERASE],
           DwmFlush, KillTimer 7 1000, Invoke 3])"
  using OnTimer_completes [of "(WindowApi_new (Some 1))\<lparr>active_animations' := [(1000, pos_anim)]\<rparr>" 1000
      pos_anim "env0\<lparr>qpc_counter := 3000000\<rparr>" "[]"]
  by (simp add: WindowApi_new_def env0_def pos_anim_def one_anim_def WindowAnimation_default_def
      GetElapsedMs_def final_calls_def ApplyAnimationFrame_def cast_int_def)

subsection \<open>The conflict invariant\<close>

lemma conflicts_sym: "conflicts p q = conflicts q p"
  by (cases p; cases q; simp add: conflicts_def)

lemma conflicts_classes:
  "conflicts p q \<longleftrightarrow> set (spec_classes p) \<inter> set (spec_classes q) \<noteq> {}"
  by (cases p; cases q; simp add: conflicts_def)

lemma set_update_subset: "set (AList.update k v al) \<subseteq> insert (k, v) (set al)"
  by (induction al) auto

lemma set_delete_subset: "set (AList.delete k al) \<subseteq> set al"
  by (auto simp: AList.delete_eq)

lemma registry_ok_Nil: "registry_ok []"
  by (simp add: registry_ok_def)

lemma registry_ok_filter: "registry_ok al \<Longrightarrow> registry_ok (filter P al)"
  by (auto simp: registry_ok_def list_all_iff distinct_map_filter)

lemma registry_ok_delete: "registry_ok al \<Longrightarrow> registry_ok (AList.delete k al)"
  unfolding AList.delete_eq by (rule registry_ok_filter)

lemma registry_ok_update:
  assumes "registry_ok al" "timer_id a = k" "hwnd a \<noteq> 0" "is_active a"
  shows "registry_ok (AList.update k a al)"
proof -
  from assms(1) have "distinct (map fst (AList.update k a al))"
    by (simp add: registry_ok_def distinct_update)
  moreover have "\<forall>pair \<in> set (AList.update k a al).
      timer_id (snd pair) = fst pair \<and> hwnd (snd pair) \<noteq> 0 \<and> is_active (snd pair)"
    using assms set_update_subset [of k a al]
    by (auto simp: registry_ok_def list_all_iff)
  ultimately show ?thesis by (simp add: registry_ok_def list_all_iff)
qed

lemma no_conflict_Nil: "no_conflict []"
  by (simp add: no_conflict_def)

lemma no_conflict_subset: "no_conflict al \<Longrightarrow> set al' \<subseteq> set al \<Longrightarrow> no_conflict al'"
  unfolding no_conflict_def by blast

lemma no_conflict_filter: "no_conflict al \<Longrightarrow> no_conflict (filter P al)"
  by (erule no_conflict_subset) auto

lemma no_conflict_delete: "no_conflict al \<Longrightarrow> no_conflict (AList.delete k al)"
  by (erule no_conflict_subset) (rule set_delete_subset)

lemma no_conflict_update:
  assumes "no_conflict al"
    and "\<forall>q \<in> set al. fst q \<noteq> k \<and> is_active (snd q) \<longrightarrow>
           \<not> conflicts (property a) (property (snd q))"
  shows "no_conflict (AList.update k a al)"
  unfolding no_conflict_def
proof (intro ballI impI)
  fix p q
  assume p: "p \<in> set (AList.update k a al)" and q: "q \<in> set (AList.update k a al)"
    and c: "is_active (snd p) \<and> is_active (snd q)
            \<and> conflicts (property (snd p)) (property (snd q))"
  from p set_update_subset [of k a al] have p': "p = (k, a) \<or> p \<in> set al" by auto
  from q set_update_subset [of k a al] have q': "q = (k, a) \<or> q \<in> set al" by auto
  show "fst p = fst q"
  proof (cases "fst p = k"; cases "fst q = k")
    assume "fst p \<noteq> k" "fst q \<noteq> k"
    with p' q' have "p \<in> set al" "q \<in> set al" by auto
    with assms(1) c show ?thesis unfolding no_conflict_def by blast
  next
    assume pk: "fst p = k" and qk: "fst q \<noteq> k"
    with q' have qa: "q \<in> set al" by auto
    show ?thesis
    proof (cases "p = (k, a)")
      case True
      with assms(2) qa qk c show ?thesis by auto
    next
      case False
      with p' have "p \<in> set al" by simp
      with assms(1) qa c show ?thesis unfolding no_conflict_def by blast
    qed
  next
    assume pk: "fst p \<noteq> k" and qk: "fst q = k"
    with p' have pa: "p \<in> set al" by auto
    show ?thesis
    proof (cases "q = (k, a)")
      case True
      with assms(2) pa pk c conflicts_sym [of "property a"] show ?thesis by auto
    next
      case False
      with q' have "q \<in> set al" by simp
      with assms(1) pa c show ?thesis unfolding no_conflict_def by blast
    qed
  qed simp
qed

lemma one_per_class:
  assumes "registry_ok al" "no_conflict al"
  shows "length (active_in_class c al) \<le> 1"
proof -
  let ?ys = "active_in_class c al"
  from assms(1) have d: "distinct (map fst al)" by (simp add: registry_ok_def)
  then have dy: "distinct ?ys"
    by (simp add: active_in_class_def distinct_map_filter distinct_map [THEN iffD1])
  have same: "p = q" if "p \<in> set ?ys" "q \<in> set ?ys" for p q
  proof -
    from that have m: "p \<in> set al" "q \<in> set al"
      and a: "is_active (snd p)" "is_active (snd q)"
      and cl: "c \<in> set (spec_classes (property (snd p)))"
        "c \<in> set (spec_classes (property (snd q)))"
      by (auto simp: active_in_class_def)
    from cl have "conflicts (property (snd p)) (property (snd q))"
      by (auto simp: conflicts_classes)
    with assms(2) m a have "fst p = fst q" unfolding no_conflict_def by blast
    with d m show "p = q"
      by (metis eq_key_imp_eq_value prod.collapse)
  qed
  show ?thesis
  proof (cases ?ys)
    case Nil
    then show ?thesis by simp
  next
    case (Cons y ys)
    have "ys = []"
    proof (cases ys)
      case Nil
      then show ?thesis .
    next
      case (Cons z zs)
      with \<open>?ys = y # ys\<close> same [of y z] dy show ?thesis by auto
    qed
    with Cons show ?thesis by simp
  qed
qed

lemma UpdateAnimation_fields:
  "timer_id (fst (UpdateAnimation api env anim calls)) = timer_id anim"
  "hwnd (fst (UpdateAnimation api env anim calls)) = hwnd anim"
  "property (fst (UpdateAnimation api env anim calls)) = property anim"
  by (simp_all add: UpdateAnimation_def Let_def)

lemma inv_anims_StartAnimation:
  assumes "inv_anims (active_animations' (fst st))"
  shows "inv_anims (active_animations' (fst (snd (StartAnimation r env st))))"
proof (cases "window' (fst st) = None \<or> GetWindowHandle env = 0")
  case True
  with assms show ?thesis by (simp add: StartAnimation_invalid)
next
  case False
  let ?P = "\<lambda>pair. is_active (snd pair) \<and> conflicts (req_property r) (property (snd pair))"
  let ?kept = "filter (\<lambda>pair. \<not> ?P pair) (active_animations' (fst st))"
  let ?st1 = "StopConflictingAnimations (req_property r) st"
  let ?anim = "fst (create_instance r env (spring_override r (fst ?st1)) (snd ?st1))"
  let ?id = "next_timer_id' (fst st)"
  from assms have ok: "registry_ok (active_animations' (fst st))"
    and nc: "no_conflict (active_animations' (fst st))"
    by (simp_all add: inv_anims_def)
  have kept: "active_animations' (fst ?st1) = ?kept"
    by (simp add: StopConflictingAnimations_registry_ok [OF ok])
  have anims: "active_animations' (fst (snd (StartAnimation r env st))) =
      AList.update ?id ?anim ?kept"
    using False by (simp add: StartAnimation_valid Let_def kept)
  have id: "timer_id ?anim = ?id"
    by (simp add: create_instance_fields spring_override_def StopConflictingAnimations_members)
  have "registry_ok (AList.update ?id ?anim ?kept)"
    using False id
    by (intro registry_ok_update registry_ok_filter ok) (simp_all add: create_instance_fields)
  moreover have "no_conflict (AList.update ?id ?anim ?kept)"
    by (intro no_conflict_update no_conflict_filter nc) (auto simp: create_instance_fields)
  ultimately show ?thesis by (simp add: anims inv_anims_def)
qed

lemma inv_anims_delete: "inv_anims al \<Longrightarrow> inv_anims (AList.delete k al)"
  by (simp add: inv_anims_def registry_ok_delete no_conflict_delete)

lemma inv_anims_OnTimer:
  assumes "inv_anims (active_animations' (fst st))"
  shows "inv_anims (active_animations' (fst (snd (OnTimer k env st))))"
proof (cases "map_of (active_animations' (fst st)) k")
  case None
  with assms show ?thesis by (simp add: OnTimer_def Let_def)
next
  case (Some anim)
  let ?al = "active_animations' (fst st)"
  let ?anim1 = "fst (UpdateAnimation (fst st) env anim (snd st))"
  from Some have mem: "(k, anim) \<in> set ?al" by (rule map_of_SomeD)
  from assms have ok: "registry_ok ?al" and nc: "no_conflict ?al"
    by (simp_all add: inv_anims_def)
  from ok mem have a: "timer_id anim = k" "hwnd anim \<noteq> 0" "is_active anim"
    by (auto simp: registry_ok_def list_all_iff)
  have upd: "inv_anims (AList.update k ?anim1 ?al)" if act: "is_active ?anim1"
  proof -
    have "registry_ok (AList.update k ?anim1 ?al)"
      using ok a act by (intro registry_ok_update) (simp_all add: UpdateAnimation_fields)
    moreover have "no_conflict (AList.update k ?anim1 ?al)"
    proof (intro no_conflict_update nc ballI impI)
      fix q
      assume q: "q \<in> set ?al" and "fst q \<noteq> k \<and> is_active (snd q)"
      with nc mem a(3) have "\<not> conflicts (property anim) (property (snd q))"
        unfolding no_conflict_def by fastforce
      then show "\<not> conflicts (property ?anim1) (property (snd q))"
        by (simp add: UpdateAnimation_fields)
    qed
    ultimately show ?thesis by (simp add: inv_anims_def)
  qed
  show ?thesis
    using Some assms upd by (simp add: OnTimer_def Let_def inv_anims_delete)
qed

lemma inv_anims_perform:
  assumes "inv_anims (active_animations' (fst st))"
  shows "inv_anims (active_animations' (fst (perform c env st)))"
proof (cases c)
  case (Start r)
  with assms show ?thesis by (simp add: perform_def inv_anims_StartAnimation)
next
  case (Stop k)
  with assms show ?thesis by (simp add: perform_def StopAnimation_anims inv_anims_delete)
next
  case StopAll
  with assms show ?thesis
    by (simp add: perform_def StopAllAnimations_def Let_def inv_anims_def registry_ok_Nil
        no_conflict_Nil split: option.splits)
next
  case (Timer k)
  with assms show ?thesis by (simp add: perform_def inv_anims_OnTimer)
next
  case (SetSpring d s)
  with assms show ?thesis by (simp add: perform_def SetSpringParameters_def)
qed

lemma inv_anims_run:
  "inv_anims (active_animations' (fst st)) \<Longrightarrow> inv_anims (active_animations' (fst (run cs st)))"
  by (induction cs arbitrary: st) (simp_all add: inv_anims_perform)

lemma inv_anims_new: "inv_anims (active_animations' (fst (run cs (WindowApi_new window, []))))"
  by (rule inv_anims_run) (simp add: WindowApi_new_def inv_anims_def registry_ok_Nil no_conflict_Nil)

lemma map_of_filter_distinct:
  assumes "distinct (map fst al)" "(k, a) \<in> set al"
  shows "map_of (filter Q al) k = (if Q (k, a) then Some a else None)"
proof (cases "Q (k, a)")
  case True
  with assms(2) have "(k, a) \<in> set (filter Q al)" by simp
  moreover from assms(1) have "distinct (map fst (filter Q al))" by (rule distinct_keys_filter)
  ultimately show ?thesis using True by (simp add: map_of_is_SomeI)
next
  case False
  with key_in_filter [OF assms, of Q] have "k \<notin> fst ` set (filter Q al)" by simp
  with False show ?thesis by (simp add: map_of_eq_None_iff)
qed

lemma filter_Invoke_kills:
  "filter is_Invoke (map (\<lambda>pair. KillTimer (hwnd (snd pair)) (fst pair)) xs) = []"
  by (induction xs) simp_all

text \<open>
  C2. Along every run of the public operations from a new \<open>WindowApi\<close>, and so along
  every sequence of \<open>StartAnimation\<close> calls, no two entries of the map hold active
  animations of conflicting properties, and each conflict class (origin, extent,
  alpha) has at most one active animation. The conflict table is that of the
  claim. A \<open>StartAnimation\<close> that passes the window guard erases exactly the active
  records whose property conflicts with the new one and kills their timers, keeps
  the others as they are, invokes no completion callback, stores the new record as
  active under the returned identifier and arms its timer as the last call.
\<close>

theorem StartAnimation_evicts_conflicts:
  "registry_ok (active_animations' (fst (run cs (WindowApi_new window, []))))
   \<and> no_conflict (active_animations' (fst (run cs (WindowApi_new window, []))))
   \<and> length (active_in_class c (active_animations' (fst (run cs (WindowApi_new window, []))))) \<le> 1
   \<and> (conflicts kPosition q \<longleftrightarrow> q = kPosition \<or> q = kBounds)
   \<and> (conflicts kSize q \<longleftrightarrow> q = kSize \<or> q = kBounds)
   \<and> (conflicts kBounds q \<longleftrightarrow> q = kPosition \<or> q = kSize \<or> q = kBounds)
   \<and> (conflicts kOpacity q \<longleftrightarrow> q = kOpacity)
   \<and> (registry_ok (active_animations' (fst st)) \<and> window' (fst st) \<noteq> None
        \<and> GetWindowHandle env \<noteq> 0 \<longrightarrow>
      fst (StartAnimation r env st) = next_timer_id' (fst st)
      \<and> (\<exists>anim.
            active_animations' (fst (snd (StartAnimation r env st))) =
              AList.update (next_timer_id' (fst st)) anim
                (filter (\<lambda>pair. \<not> (is_active (snd pair)
                                     \<and> conflicts (req_property r) (property (snd pair))))
                        (active_animations' (fst st)))
            \<and> is_active anim \<and> property anim = req_property r
            \<and> timer_id anim = next_timer_id' (fst st) \<and> hwnd anim = GetWindowHandle env
            \<and> on_complete anim = req_on_complete r)
      \<and> (\<forall>k a. (k, a) \<in> set (active_animations' (fst st)) \<and> k \<noteq> next_timer_id' (fst st) \<longrightarrow>
            map_of (active_animations' (fst (snd (StartAnimation r env st)))) k =
              (if is_active a \<and> conflicts (req_property r) (property a) then None else Some a))
      \<and> snd (snd (StartAnimation r env st)) =
          snd st
          @ map (\<lambda>pair. KillTimer (hwnd (snd pair)) (fst pair))
                (filter (\<lambda>pair. is_active (snd pair)
                                 \<and> conflicts (req_property r) (property (snd pair)))
                        (active_animations' (fst st)))
          @ (if req_property r = kOpacity
             then (if ex_style env AND WS_EX_LAYERED = 0
                   then [SetWindowLong (GetWindowHandle env) (ex_style env OR WS_EX_LAYERED)]
                   else [GetLayeredWindowAttributes (GetWindowHandle env)])
             else [])
          @ [SetTimer (GetWindowHandle env) (next_timer_id' (fst st)) 16]
      \<and> filter is_Invoke (snd (snd (StartAnimation r env st))) = filter is_Invoke (snd st))"
proof -
  let ?al = "active_animations' (fst (run cs (WindowApi_new window, [])))"
  have inv: "registry_ok ?al \<and> no_conflict ?al"
    using inv_anims_new [of cs window] by (simp add: inv_anims_def)
  then have one: "length (active_in_class c ?al) \<le> 1" by (intro one_per_class) simp_all
  have table: "(conflicts kPosition q \<longleftrightarrow> q = kPosition \<or> q = kBounds)
   \<and> (conflicts kSize q \<longleftrightarrow> q = kSize \<or> q = kBounds)
   \<and> (conflicts kBounds q \<longleftrightarrow> q = kPosition \<or> q = kSize \<or> q = kBounds)
   \<and> (conflicts kOpacity q \<longleftrightarrow> q = kOpacity)"
    by (simp add: conflicts_def)
  let ?P = "\<lambda>pair. is_active (snd pair) \<and> conflicts (req_property r) (property (snd pair))"
  let ?kept = "filter (\<lambda>pair. \<not> ?P pair) (active_animations' (fst st))"
  let ?st1 = "StopConflictingAnimations (req_property r) st"
  let ?anim = "fst (create_instance r env (spring_override r (fst ?st1)) (snd ?st1))"
  let ?id = "next_timer_id' (fst st)"
  let ?res = "StartAnimation r env st"
  have step: "fst ?res = ?id
      \<and> (\<exists>anim. active_animations' (fst (snd ?res)) = AList.update ?id anim ?kept
            \<and> is_active anim \<and> property anim = req_property r
            \<and> timer_id anim = ?id \<and> hwnd anim = GetWindowHandle env
            \<and> on_complete anim = req_on_complete r)
      \<and> (\<forall>k a. (k, a) \<in> set (active_animations' (fst st)) \<and> k \<noteq> ?id \<longrightarrow>
            map_of (active_animations' (fst (snd ?res))) k =
              (if is_active a \<and> conflicts (req_property r) (property a) then None else Some a))
      \<and> snd (snd ?res) =
          snd st
          @ map (\<lambda>pair. KillTimer (hwnd (snd pair)) (fst pair))
                (filter ?P (active_animations' (fst st)))
          @ (if req_property r = kOpacity
             then (if ex_style env AND WS_EX_LAYERED = 0
                   then [SetWindowLong (GetWindowHandle env) (ex_style env OR WS_EX_LAYERED)]
                   else [GetLayeredWindowAttributes (GetWindowHandle env)])
             else [])
          @ [SetTimer (GetWindowHandle env) ?id 16]
      \<and> filter is_Invoke (snd (snd ?res)) = filter is_Invoke (snd st)"
    if ok: "registry_ok (active_animations' (fst st))"
      and w: "window' (fst st) \<noteq> None" and h: "GetWindowHandle env \<noteq> 0"
  proof -
    note stop = StopConflictingAnimations_registry_ok [OF ok, of "req_property r"]
    from ok have d: "distinct (map fst (active_animations' (fst st)))"
      by (simp add: registry_ok_def)
    have ret: "fst ?res = ?id"
      using w h by (simp add: StartAnimation_valid Let_def)
    have anims: "active_animations' (fst (snd ?res)) = AList.update ?id ?anim ?kept"
      using w h by (simp add: StartAnimation_valid Let_def stop)
    have fields: "is_active ?anim \<and> property ?anim = req_property r
            \<and> timer_id ?anim = ?id \<and> hwnd ?anim = GetWindowHandle env
            \<and> on_complete ?anim = req_on_complete r"
      by (simp add: create_instance_fields spring_override_def StopConflictingAnimations_members)
    have others: "map_of (active_animations' (fst (snd ?res))) k =
              (if is_active a \<and> conflicts (req_property r) (property a) then None else Some a)"
      if "(k, a) \<in> set (active_animations' (fst st))" "k \<noteq> ?id" for k a
      using that map_of_filter_distinct [OF d that(1), of "\<lambda>pair. \<not> ?P pair"]
      by (simp add: anims update_conv')
    have calls: "snd (snd ?res) =
          snd st
          @ map (\<lambda>pair. KillTimer (hwnd (snd pair)) (fst pair))
                (filter ?P (active_animations' (fst st)))
          @ (if req_property r = kOpacity
             then (if ex_style env AND WS_EX_LAYERED = 0
                   then [SetWindowLong (GetWindowHandle env) (ex_style env OR WS_EX_LAYERED)]
                   else [GetLayeredWindowAttributes (GetWindowHandle env)])
             else [])
          @ [SetTimer (GetWindowHandle env) ?id 16]"
      using w h by (simp add: StartAnimation_calls stop)
    have quiet: "filter is_Invoke (snd (snd ?res)) = filter is_Invoke (snd st)"
      unfolding calls by (simp add: filter_Invoke_kills)
    from anims fields have "\<exists>anim. active_animations' (fst (snd ?res)) = AList.update ?id anim ?kept
            \<and> is_active anim \<and> property anim = req_property r
            \<and> timer_id anim = ?id \<and> hwnd anim = GetWindowHandle env
            \<and> on_complete anim = req_on_complete r"
      by blast
    with ret others calls quiet show ?thesis by blast
  qed
  show ?thesis using inv one table step by blast
qed

theorem StartAnimation_evicts_conflicts_witness:
  "registry_ok (active_animations' (fst stP)) \<and> window' (fst stP) \<noteq> None
   \<and> GetWindowHandle env0 \<noteq> 0
   \<and> (1000, pos_anim) \<in> set (active_animations' (fst stP))
   \<and> fst (StartAnimation reqB env0 stP) = 1001
   \<and> map_of (active_animations' (fst (snd (StartAnimation reqB env0 stP)))) 1000 = None
   \<and> snd (snd (StartAnimation reqB env0 stP)) =
       [SetTimer 7 1000 16, KillTimer 7 1000, SetTimer 7 1001 16]
   \<and> length (active_in_class Origin (active_animations'
        (fst (run [(Start req0, env0), (Start reqB, env0)] (WindowApi_new (Some 1), [])))))
       \<le> 1"
  using StartAnimation_evicts_conflicts
      [of "[(Start req0, env0), (Start reqB, env0)]" "Some 1" Origin kPosition stP env0 reqB]
  by (simp add: stP_def reqB_def req0_def env0_def pos_anim_def one_anim_def
      WindowAnimation_default_def WindowApi_new_def registry_ok_def conflicts_def)

subsection \<open>The tick scheduler\<close>

lemma OnTick_state:
  "last_tick_time_ms' (snd (OnTick c t)) = ms t c"
  "qpc_frequency' (snd (OnTick c t)) = qpc_frequency' t"
  "windowApis' (snd (OnTick c t)) = windowApis' t"
  by (simp_all add: OnTick_def Let_def ms_def)

lemma OnTick_cache_ok: "cache_ok t \<Longrightarrow> cache_ok (snd (OnTick c t))"
  by (auto simp: OnTick_def Let_def cache_ok_def)

lemma OnTick_deliveries:
  "cache_ok t \<Longrightarrow>
   fst (OnTick c t) =
     map (\<lambda>window. (window, capped (ms t c - last_tick_time_ms' t)))
         (filter (\<lambda>window. window \<noteq> 0) (windowApis' t))"
  by (auto simp: OnTick_def Let_def cache_ok_def capped_def ms_def)

lemma member_op_state:
  "last_tick_time_ms' (member_op m t) = last_tick_time_ms' t"
  "qpc_frequency' (member_op m t) = qpc_frequency' t"
  by (cases m; simp add: AddWindowApi_def RemoveWindowApi_def ClearWindows_def)+

lemma member_op_cache_ok: "cache_ok t \<Longrightarrow> cache_ok (member_op m t)"
  by (cases m) (simp_all add: AddWindowApi_def RemoveWindowApi_def ClearWindows_def cache_ok_def)

lemma fold_member_op_state:
  "last_tick_time_ms' (fold member_op ops t) = last_tick_time_ms' t"
  "qpc_frequency' (fold member_op ops t) = qpc_frequency' t"
  by (induction ops arbitrary: t; simp add: member_op_state)+

lemma fold_member_op_cache_ok: "cache_ok t \<Longrightarrow> cache_ok (fold member_op ops t)"
  by (induction ops arbitrary: t) (simp_all add: member_op_cache_ok)

lemma OnTick_post_state:
  "last_tick_time_ms' (snd (OnTick_post c t)) = ms t c"
  "qpc_frequency' (snd (OnTick_post c t)) = qpc_frequency' t"
  "fst (OnTick_post c t) = capped (ms t c - last_tick_time_ms' t)"
  by (simp_all add: OnTick_post_def Let_def ms_def capped_def)

text \<open>
  C4. For two consecutive ticks at the counter readings \<open>c1\<close> and \<open>c2\<close>, with any
  membership changes in between: the second tick delivers to every registered
  consumer the delta 16 when the measured gap \<open>ms t c2 - ms t c1\<close> exceeds 100, and
  the measured gap otherwise. This holds for the version with the cached copy and
  for the version that posts a task to the main thread.
\<close>

theorem OnTick_delta_capped:
  assumes "cache_ok t"
  shows "fst (OnTick c2 (fold member_op ops (snd (OnTick c1 t)))) =
           map (\<lambda>window. (window, if ms t c2 - ms t c1 > 100 then 16 else ms t c2 - ms t c1))
               (filter (\<lambda>window. window \<noteq> 0)
                       (windowApis' (fold member_op ops (snd (OnTick c1 t)))))
    \<and> fst (OnTick_post c2 (snd (OnTick_post c1 t))) =
           (if ms t c2 - ms t c1 > 100 then 16 else ms t c2 - ms t c1)
    \<and> posted_task GetApi (fst (OnTick_post c2 (snd (OnTick_post c1 t)))) t' =
           map (\<lambda>window. (GetApi window,
                            if ms t c2 - ms t c1 > 100 then 16 else ms t c2 - ms t c1))
               (filter (\<lambda>window. window \<noteq> 0 \<and> GetApi window \<noteq> 0) (windows' t'))"
proof -
  let ?t1 = "fold member_op ops (snd (OnTick c1 t))"
  have ok: "cache_ok ?t1"
    using assms by (intro fold_member_op_cache_ok OnTick_cache_ok)
  have last: "last_tick_time_ms' ?t1 = ms t c1"
    by (simp add: fold_member_op_state OnTick_state)
  have "qpc_frequency' ?t1 = qpc_frequency' t"
    by (simp add: fold_member_op_state OnTick_state)
  then have now: "ms ?t1 c2 = ms t c2" by (simp add: ms_def)
  have a: "fst (OnTick c2 ?t1) =
           map (\<lambda>window. (window, if ms t c2 - ms t c1 > 100 then 16 else ms t c2 - ms t c1))
               (filter (\<lambda>window. window \<noteq> 0) (windowApis' ?t1))"
    using OnTick_deliveries [OF ok, of c2] by (simp add: last now capped_def)
  have "ms (snd (OnTick_post c1 t)) c2 = ms t c2"
    by (simp add: ms_def OnTick_post_state)
  then have b: "fst (OnTick_post c2 (snd (OnTick_post c1 t))) =
           (if ms t c2 - ms t c1 > 100 then 16 else ms t c2 - ms t c1)"
    by (simp add: OnTick_post_state capped_def)
  show ?thesis using a by (simp add: b posted_task_def)
qed

theorem OnTick_delta_capped_witness:
  "cache_ok timer0
   \<and> ms timer0 12500000 - ms timer0 10000000 = 250
   \<and> fst (OnTick 12500000 (fold member_op [Add 11] (snd (OnTick 10000000 timer0)))) =
       [(5, 16), (9, 16), (11, 16)]
   \<and> fst (OnTick 10500000 (fold member_op [Add 11] (snd (OnTick 10000000 timer0)))) =
       [(5, 50), (9, 50), (11, 50)]"
  using OnTick_delta_capped [of timer0 12500000 "[Add 11]" 10000000]
    OnTick_delta_capped [of timer0 10500000 "[Add 11]" 10000000]
  by (simp add: timer0_def cache_ok_def ms_def OnTick_state AddWindowApi_def set_insert_def)

subsection \<open>Spring parameters and animations in flight\<close>

lemma exp5_bounds: "6 \<le> exp (5::real)" "exp (5::real) \<le> 243"
proof -
  show "6 \<le> exp (5::real)" using exp_ge_add_one_self [of "5::real"] by simp
  have "exp (5::real) = exp 1 ^ 5" using exp_of_nat_mult [of 5 "1::real"] by simp
  also have "\<dots> \<le> 3 ^ 5" by (intro power_mono exp_le) simp
  finally show "exp (5::real) \<le> 243" by simp
qed

lemma exp10_lower: "2805 < exp (10::real)"
proof -
  have "(1 + 10 / of_nat 20) ^ 20 \<le> exp (10::real)"
    by (rule exp_ge_one_plus_x_over_n_power_n) simp_all
  moreover have "(2805::real) < (1 + 10 / of_nat 20) ^ 20" by (simp add: power_divide)
  ultimately show ?thesis by linarith
qed

lemma sqrt_100: "sqrt 100 = 10" by (rule real_sqrt_unique) simp_all
lemma sqrt_400: "sqrt 400 = 20" by (rule real_sqrt_unique) simp_all

lemma CSB_100: "CalculateSpringBounce (1 / 2) 1 100 = 1 - 6 / exp 5"
proof -
  have "6 / exp (5::real) \<le> 1" using exp5_bounds(1) by simp
  moreover have "0 \<le> 6 / exp (5::real)" by simp
  ultimately show ?thesis
    by (simp add: CalculateSpringBounce_def Let_def sqrt_100 exp_minus')
qed

lemma CSB_400: "CalculateSpringBounce (1 / 2) 1 400 = 1 - 11 / exp 10"
proof -
  have "11 / exp (10::real) \<le> 1" using exp10_lower by simp
  moreover have "0 \<le> 11 / exp (10::real)" by simp
  ultimately show ?thesis
    by (simp add: CalculateSpringBounce_def Let_def sqrt_400 exp_minus')
qed

lemma stS_eval:
  "stS = ((SetSpringParameters 1 100 (WindowApi_new (Some 1)))
            \<lparr>next_timer_id' := 1001,
             active_animations' :=
               [(1000, WindowAnimation_default
                   \<lparr>timer_id := 1000, hwnd := 7, property := kOpacity, target_opacity := 0,
                    duration := 300, spring_damping := 1, spring_stiffness := 100,
                    is_active := True\<rparr>)]\<rparr>,
          [SetWindowLong 7 0x80000, SetTimer 7 1000 16])"
  by (simp add: stS_def StartAnimation_def StopConflictingAnimations_def to_stop_def
      create_instance_def Let_def reqS_def req0_def env0_def WindowApi_new_def
      SetSpringParameters_def WindowAnimation_default_def WS_EX_LAYERED_def
      kAnimationTimerInterval_def USER_DEFAULT_SCREEN_DPI_def)

lemma byte_nz: "1 \<le> n \<Longrightarrow> n \<le> 255 \<Longrightarrow> (word_of_int n :: 8 word) \<noteq> 0"
  by (simp add: word_of_int_eq_0_iff zdvd_not_zless)

lemma OnTimer_spring_frame:
  assumes "active_animations' api = [(1000, animS)]"
  shows "snd (snd (OnTimer 1000 env_mid (api, calls))) =
     calls @ [SetLayeredWindowAttributes 7
                (cast_BYTE (max 0 (min 1 (1 - CalculateSpringBounce (1 / 2)
                   (spring_damping' api) (spring_stiffness' api))) * 255)),
              DwmFlush]"
  using assms
  by (simp add: OnTimer_def UpdateAnimation_def ApplyAnimationFrame_def Let_def animS_def
      WindowAnimation_default_def env_mid_def env0_def GetElapsedMs_def CalculateEasing_def)

lemma byte_400: "cast_BYTE (max 0 (min 1 (1 - CalculateSpringBounce (1 / 2) 1 400)) * 255) = 0"
proof -
  have a: "11 / exp (10::real) \<le> 1" using exp10_lower by simp
  have "0 \<le> 2805 / exp (10::real)" "2805 / exp (10::real) < 1"
    using exp10_lower by simp_all
  then have "\<lfloor>2805 / exp (10::real)\<rfloor> = 0" by linarith
  with a show ?thesis by (simp add: CSB_400 cast_BYTE_def cast_int_def)
qed

lemma byte_100: "cast_BYTE (max 0 (min 1 (1 - CalculateSpringBounce (1 / 2) 1 100)) * 255) \<noteq> 0"
proof -
  have a: "6 / exp (5::real) \<le> 1" using exp5_bounds(1) by simp
  have "1 \<le> 1530 / exp (5::real)" "1530 / exp (5::real) \<le> 255"
    using exp5_bounds by (simp_all add: field_simps)
  then have "1 \<le> \<lfloor>1530 / exp (5::real)\<rfloor>" "\<lfloor>1530 / exp (5::real)\<rfloor> \<le> 255"
    by linarith+
  then have "(word_of_int \<lfloor>1530 / exp (5::real)\<rfloor> :: 8 word) \<noteq> 0" by (rule byte_nz)
  with a show ?thesis by (simp add: CSB_100 cast_BYTE_def cast_int_def)
qed

lemma SetSpringParameters_clamped:
  "spring_damping' (SetSpringParameters d s api) = max (1 / 10) (min 2 d)
   \<and> spring_stiffness' (SetSpringParameters d s api) = max 10 (min 500 s)
   \<and> 1 / 10 \<le> spring_damping' (SetSpringParameters d s api)
   \<and> spring_damping' (SetSpringParameters d s api) \<le> 2
   \<and> 10 \<le> spring_stiffness' (SetSpringParameters d s api)
   \<and> spring_stiffness' (SetSpringParameters d s api) \<le> 500"
  by (simp add: SetSpringParameters_def)

text \<open>
  C8. \<open>SetSpringParameters\<close> clamps as claimed, but it also reaches the animations in
  flight: \<open>CalculateEasing\<close> reads the members of the \<open>WindowApi\<close>, not the damping and
  stiffness that \<open>StartAnimation\<close> captured in the record. Here a spring animation of
  the opacity is started with the members at 1 and 100, which the record captures.
  Half way through, the frame computed from the captured values has a non-zero
  alpha; after a later \<open>SetSpringParameters 1 400\<close> the frame of the same tick has
  the alpha 0.
\<close>

theorem SetSpringParameters_changes_frame_in_flight:
  "spring_damping' (SetSpringParameters 1 400 (fst stS)) = 1
   \<and> spring_stiffness' (SetSpringParameters 1 400 (fst stS)) = 400
   \<and> map_option spring_damping (map_of (active_animations' (fst stS)) 1000) = Some 1
   \<and> map_option spring_stiffness (map_of (active_animations' (fst stS)) 1000) = Some 100
   \<and> snd (snd (OnTimer 1000 env_mid (SetSpringParameters 1 400 (fst stS), snd stS))) =
       snd stS @ [SetLayeredWindowAttributes 7 0, DwmFlush]
   \<and> snd (snd (OnTimer 1000 env_mid stS)) \<noteq>
       snd stS @ [SetLayeredWindowAttributes 7 0, DwmFlush]"
proof -
  have reg: "active_animations' (fst stS) = [(1000, animS)]"
    by (simp add: stS_eval animS_def)
  have mem: "spring_damping' (fst stS) = 1" "spring_stiffness' (fst stS) = 100"
    by (simp_all add: stS_eval SetSpringParameters_def)
  have later: "snd (snd (OnTimer 1000 env_mid (SetSpringParameters 1 400 (fst stS), snd stS))) =
       snd stS @ [SetLayeredWindowAttributes 7 0, DwmFlush]"
    using OnTimer_spring_frame [of "SetSpringParameters 1 400 (fst stS)" "snd stS"] reg byte_400
    by (simp add: SetSpringParameters_def)
  have before: "snd (snd (OnTimer 1000 env_mid stS)) \<noteq>
       snd stS @ [SetLayeredWindowAttributes 7 0, DwmFlush]"
    using OnTimer_spring_frame [of "fst stS" "snd stS"] reg byte_100
    by (simp add: mem)
  show ?thesis using later before
    by (simp add: SetSpringParameters_def reg animS_def WindowAnimation_default_def)
qed

end
